theory Spec2Isabelle
  imports Main "HOL-Library.Word" "HOL-Library.Sublist"
begin

unbundle bit_operations_syntax

section \<open>Venus power-management helpers: data model\<close>

text \<open>
  The embedding follows \<^verbatim>\<open>pm_helpers.c\<close> function by function. Everything the driver
  calls outside that file (the clock framework, runtime PM, MMIO accessors, device links)
  is an external capability. Each external call appends one event to a trace that
  records the call, its arguments and its result, in program order; the result of a
  fallible call is chosen by an environment that may look at the whole history so far.
\<close>

type_synonym u32 = "32 word"

text \<open>Kernel pointers (\<^verbatim>\<open>struct clk *\<close>, \<^verbatim>\<open>struct device *\<close>,
  \<^verbatim>\<open>struct device_link *\<close>) are 64-bit machine words.\<close>

type_synonym ptr = "64 word"

text \<open>Modelled from the spec: the register offsets of \<^verbatim>\<open>hfi_venus_io.h\<close> (a header
  that is not modelled here). Only their identity matters; \<^verbatim>\<open>core->base + OFFSET\<close> is the
  register named by the offset.\<close>

datatype reg =
    WRAPPER_VDEC_VCODEC_POWER_CONTROL
  | WRAPPER_VENC_VCODEC_POWER_CONTROL
  | WRAPPER_VCODEC0_MMCC_POWER_CONTROL
  | WRAPPER_VCODEC0_MMCC_POWER_STATUS
  | WRAPPER_VCODEC1_MMCC_POWER_CONTROL
  | WRAPPER_VCODEC1_MMCC_POWER_STATUS

text \<open>Modelled from the spec: the three flags of the power-domain link
  (keep-runtime-active, stateless, tie-to-domain-active), declared in
  \<^verbatim>\<open>linux/device.h\<close>.\<close>

datatype dl_flag = DL_FLAG_PM_RUNTIME | DL_FLAG_STATELESS | DL_FLAG_RPM_ACTIVE

datatype event =
    EvDevmClkGet string ptr               \<comment> \<open>\<^verbatim>\<open>devm_clk_get(dev, name)\<close> and the pointer returned\<close>
  | EvClkPrepareEnable ptr int            \<comment> \<open>\<^verbatim>\<open>clk_prepare_enable(clk)\<close> and its return code\<close>
  | EvClkDisableUnprepare ptr             \<comment> \<open>\<^verbatim>\<open>clk_disable_unprepare(clk)\<close>\<close>
  | EvWritel u32 reg                      \<comment> \<open>\<^verbatim>\<open>writel(val, base + reg)\<close>\<close>
  | EvReadlPoll reg "u32 list" int        \<comment> \<open>\<^verbatim>\<open>readl_poll_timeout\<close>: values read, return code\<close>
  | EvPmRuntimeGetSync ptr int            \<comment> \<open>\<^verbatim>\<open>pm_runtime_get_sync(pd)\<close> and its return code\<close>
  | EvPmRuntimePutSync ptr int            \<comment> \<open>\<^verbatim>\<open>pm_runtime_put_sync(pd)\<close> and its return code\<close>
  | EvPmDomainAttach string ptr           \<comment> \<open>\<^verbatim>\<open>dev_pm_domain_attach_by_name(dev, name)\<close>\<close>
  | EvPmDomainDetach ptr bool             \<comment> \<open>\<^verbatim>\<open>dev_pm_domain_detach(pd, power_off)\<close>\<close>
  | EvDeviceLinkAdd ptr "dl_flag list" ptr  \<comment> \<open>\<^verbatim>\<open>device_link_add(dev, supplier, flags)\<close>\<close>
  | EvDeviceLinkDel ptr                   \<comment> \<open>\<^verbatim>\<open>device_link_del(link)\<close>\<close>
  | EvDevErr string "int list"            \<comment> \<open>\<^verbatim>\<open>dev_err(dev, fmt, ...)\<close>: format and integer arguments\<close>

text \<open>The environment: what each fallible external call returns, given the history of
  calls made so far. \<open>readl_res\<close> is the status source of a polling call: the value the
  \<open>k\<close>-th read of that call sees. \<open>uninit_int\<close> is the indeterminate value of an
  \<^verbatim>\<open>int\<close> local that is read before it was assigned.\<close>

record env =
  devm_clk_get_res :: "event list \<Rightarrow> string \<Rightarrow> ptr"
  clk_prepare_enable_res :: "event list \<Rightarrow> ptr \<Rightarrow> int"
  readl_res :: "event list \<Rightarrow> reg \<Rightarrow> nat \<Rightarrow> u32"
  pm_runtime_get_sync_res :: "event list \<Rightarrow> ptr \<Rightarrow> int"
  pm_runtime_put_sync_res :: "event list \<Rightarrow> ptr \<Rightarrow> int"
  pm_domain_attach_res :: "event list \<Rightarrow> string \<Rightarrow> ptr"
  device_link_add_res :: "event list \<Rightarrow> ptr \<Rightarrow> dl_flag list \<Rightarrow> ptr"
  uninit_int :: int

text \<open>The state outside the driver: the enable count the clock framework keeps per clock
  handle (a clock is enabled while its count is positive), and the trace.\<close>

record hw =
  clk_enable_count :: "ptr \<Rightarrow> nat"
  trace :: "event list"

text \<open>\<^verbatim>\<open>struct venus_resources\<close> and \<^verbatim>\<open>struct venus_core\<close>, restricted to the fields
  this file reads or writes. The C arrays \<^verbatim>\<open>res->clks[]\<close> and \<^verbatim>\<open>core->clks[]\<close> are
  indexed by position.\<close>

record venus_resources =
  res_clks :: "nat \<Rightarrow> string"
  clks_num :: nat

record venus_core =
  res :: venus_resources
  clks :: "nat \<Rightarrow> ptr"
  core0_clk :: ptr
  core0_bus_clk :: ptr
  core1_clk :: ptr
  core1_bus_clk :: ptr
  pd_core :: ptr
  pd_core0 :: ptr
  pd_core1 :: ptr
  pd_dl_venus :: ptr

definition log_event :: "event \<Rightarrow> hw \<Rightarrow> hw" where
  "log_event e h = h\<lparr>trace := trace h @ [e]\<rparr>"

section \<open>External capabilities\<close>

text \<open>Modelled from the spec: \<^verbatim>\<open>linux/err.h\<close>. An error pointer is one of the top
  4095 addresses; \<^verbatim>\<open>PTR_ERR\<close> reads the pointer as a signed \<^verbatim>\<open>long\<close>, and returning
  it from a function of type \<^verbatim>\<open>int\<close> keeps the low 32 bits.\<close>

definition NULL :: ptr where
  "NULL = 0"

definition MAX_ERRNO :: ptr where
  "MAX_ERRNO = 4095"

definition IS_ERR :: "ptr \<Rightarrow> bool" where
  "IS_ERR p = (p \<ge> - MAX_ERRNO)"

definition IS_ERR_OR_NULL :: "ptr \<Rightarrow> bool" where
  "IS_ERR_OR_NULL p = (p = NULL \<or> IS_ERR p)"

definition PTR_ERR :: "ptr \<Rightarrow> int" where
  "PTR_ERR p = sint (ucast p :: 32 word)"

definition ERR_PTR :: "int \<Rightarrow> ptr" where
  "ERR_PTR e = word_of_int e"

text \<open>Modelled from the spec: the errno values used here (\<^verbatim>\<open>errno.h\<close>).\<close>

definition ENODEV :: int where
  "ENODEV = 19"

definition ETIMEDOUT :: int where
  "ETIMEDOUT = 110"

text \<open>Modelled from the spec: clock handle \<open>enable()\<close> and \<open>disable()\<close>
  (\<^verbatim>\<open>clk_prepare_enable\<close>, \<^verbatim>\<open>clk_disable_unprepare\<close> of \<^verbatim>\<open>linux/clk.h\<close>). A successful
  enable raises the clock's enable count, a failed one leaves it alone; a disable lowers
  it and never reports anything.\<close>

definition clk_prepare_enable :: "env \<Rightarrow> ptr \<Rightarrow> hw \<Rightarrow> int \<times> hw" where
  "clk_prepare_enable ev clk h =
     (let ret = clk_prepare_enable_res ev (trace h) clk in
      (ret, h\<lparr>clk_enable_count :=
                 (if ret = 0 then (clk_enable_count h)(clk := Suc (clk_enable_count h clk))
                  else clk_enable_count h),
               trace := trace h @ [EvClkPrepareEnable clk ret]\<rparr>))"

definition clk_disable_unprepare :: "ptr \<Rightarrow> hw \<Rightarrow> hw" where
  "clk_disable_unprepare clk h =
     h\<lparr>clk_enable_count := (clk_enable_count h)(clk := clk_enable_count h clk - 1),
       trace := trace h @ [EvClkDisableUnprepare clk]\<rparr>"

text \<open>Modelled from the spec: clock handle resolution by name (\<^verbatim>\<open>devm_clk_get\<close>).\<close>

definition devm_clk_get :: "env \<Rightarrow> string \<Rightarrow> hw \<Rightarrow> ptr \<times> hw" where
  "devm_clk_get ev name h =
     (let p = devm_clk_get_res ev (trace h) name in (p, log_event (EvDevmClkGet name p) h))"

section \<open>Clock set manager\<close>

text \<open>\<^verbatim>\<open>core_clks_get\<close>: the \<^verbatim>\<open>for\<close> loop from index \<open>i\<close>.\<close>

function core_clks_get_from :: "env \<Rightarrow> nat \<Rightarrow> venus_core \<Rightarrow> hw \<Rightarrow> int \<times> venus_core \<times> hw" where
  "core_clks_get_from ev i core h =
     (if i < clks_num (res core) then
        (let (p, h1) = devm_clk_get ev (res_clks (res core) i) h;
             core1 = core\<lparr>clks := (clks core)(i := p)\<rparr>
         in if IS_ERR p then (PTR_ERR p, core1, h1)
            else core_clks_get_from ev (Suc i) core1 h1)
      else (0, core, h))"
  by pat_completeness auto
termination
  by (relation "measure (\<lambda>(ev, i, core, h). clks_num (res core) - i)") auto

definition core_clks_get :: "env \<Rightarrow> venus_core \<Rightarrow> hw \<Rightarrow> int \<times> venus_core \<times> hw" where
  "core_clks_get ev core h = core_clks_get_from ev 0 core h"

text \<open>\<^verbatim>\<open>core_clks_enable\<close>: the \<^verbatim>\<open>for\<close> loop from index \<open>i\<close>. It yields the return code
  of the failing enable (or 0), the value of \<open>i\<close> on leaving the loop, and the state.\<close>

function core_clks_enable_from :: "env \<Rightarrow> venus_core \<Rightarrow> nat \<Rightarrow> hw \<Rightarrow> int \<times> nat \<times> hw" where
  "core_clks_enable_from ev core i h =
     (if i < clks_num (res core) then
        (let (ret, h1) = clk_prepare_enable ev (clks core i) h
         in if ret \<noteq> 0 then (ret, i, h1)
            else core_clks_enable_from ev core (Suc i) h1)
      else (0, i, h))"
  by pat_completeness auto
termination
  by (relation "measure (\<lambda>(ev, core, i, h). clks_num (res core) - i)") auto

text \<open>\<^verbatim>\<open>while (i--) clk_disable_unprepare(core->clks[i]);\<close>\<close>

fun clks_disable_down :: "venus_core \<Rightarrow> nat \<Rightarrow> hw \<Rightarrow> hw" where
  "clks_disable_down core 0 h = h"
| "clks_disable_down core (Suc i) h =
     clks_disable_down core i (clk_disable_unprepare (clks core i) h)"

definition core_clks_enable :: "env \<Rightarrow> venus_core \<Rightarrow> hw \<Rightarrow> int \<times> hw" where
  "core_clks_enable ev core h =
     (let (ret, i, h1) = core_clks_enable_from ev core 0 h
      in if ret \<noteq> 0 then (ret, clks_disable_down core i h1) else (0, h1))"

definition core_clks_disable :: "venus_core \<Rightarrow> hw \<Rightarrow> hw" where
  "core_clks_disable core h = clks_disable_down core (clks_num (res core)) h"

text \<open>The clock set of a core, in insertion order.\<close>

definition clock_set :: "venus_core \<Rightarrow> ptr list" where
  "clock_set core = map (clks core) [0..<clks_num (res core)]"


section \<open>Register handshake primitive\<close>

text \<open>Modelled from the spec: a single unconditional register write (\<^verbatim>\<open>writel\<close>).\<close>

definition writel :: "u32 \<Rightarrow> reg \<Rightarrow> hw \<Rightarrow> hw" where
  "writel val addr h = log_event (EvWritel val addr) h"

text \<open>Modelled from the spec: the read-poll-with-timeout primitive
  (\<^verbatim>\<open>readl_poll_timeout\<close> of \<^verbatim>\<open>linux/iopoll.h\<close>), as the bounded retry loop the spec
  describes: at most \<open>timeout / interval\<close> reads of the status source, stopping at the
  first value that satisfies the condition; \<open>-ETIMEDOUT\<close> when none does.
  \<open>poll_status src cond n k\<close> makes up to \<open>n\<close> reads starting at poll index \<open>k\<close> and
  yields the return code and the values read.\<close>

fun poll_status :: "(nat \<Rightarrow> u32) \<Rightarrow> (u32 \<Rightarrow> bool) \<Rightarrow> nat \<Rightarrow> nat \<Rightarrow> int \<times> u32 list" where
  "poll_status src cond 0 k = (- ETIMEDOUT, [])"
| "poll_status src cond (Suc n) k =
     (let val = src k in
      if cond val then (0, [val])
      else (let (ret, vals) = poll_status src cond n (Suc k) in (ret, val # vals)))"

definition readl_poll_timeout ::
  "env \<Rightarrow> reg \<Rightarrow> (u32 \<Rightarrow> bool) \<Rightarrow> nat \<Rightarrow> nat \<Rightarrow> hw \<Rightarrow> int \<times> hw" where
  "readl_poll_timeout ev addr cond sleep_us timeout_us h =
     (let (ret, vals) = poll_status (readl_res ev (trace h) addr) cond (timeout_us div sleep_us) 0
      in (ret, log_event (EvReadlPoll addr vals ret) h))"

text \<open>Modelled from the spec: \<^verbatim>\<open>BIT(n)\<close> of \<^verbatim>\<open>linux/bits.h\<close>.\<close>

definition BIT :: "nat \<Rightarrow> u32" where
  "BIT n = push_bit n 1"

text \<open>Modelled from the spec: the core identifiers and session types of
  \<^verbatim>\<open>hfi_helper.h\<close>. The core identifiers are distinct bits, so that they can be
  combined into a mask.\<close>

definition VIDC_CORE_ID_1 :: u32 where
  "VIDC_CORE_ID_1 = 1"

definition VIDC_CORE_ID_2 :: u32 where
  "VIDC_CORE_ID_2 = 2"

definition VIDC_SESSION_TYPE_ENC :: u32 where
  "VIDC_SESSION_TYPE_ENC = 1"

definition VIDC_SESSION_TYPE_DEC :: u32 where
  "VIDC_SESSION_TYPE_DEC = 2"

text \<open>\<^verbatim>\<open>pm_helpers.h\<close>.\<close>

definition POWER_ON :: int where
  "POWER_ON = 1"

definition POWER_OFF :: int where
  "POWER_OFF = 0"

definition vcodec_power_control_v3 :: "venus_core \<Rightarrow> u32 \<Rightarrow> bool \<Rightarrow> hw \<Rightarrow> hw" where
  "vcodec_power_control_v3 core session_type enable h =
     (let ctrl = (if session_type = VIDC_SESSION_TYPE_DEC then WRAPPER_VDEC_VCODEC_POWER_CONTROL
                  else WRAPPER_VENC_VCODEC_POWER_CONTROL)
      in if enable then writel 0 ctrl h else writel 1 ctrl h)"

definition vcodec_power_control_v4 :: "env \<Rightarrow> venus_core \<Rightarrow> u32 \<Rightarrow> bool \<Rightarrow> hw \<Rightarrow> int \<times> hw" where
  "vcodec_power_control_v4 ev core coreid enable h =
     (let (ctrl, stat) =
            (if coreid = VIDC_CORE_ID_1
             then (WRAPPER_VCODEC0_MMCC_POWER_CONTROL, WRAPPER_VCODEC0_MMCC_POWER_STATUS)
             else (WRAPPER_VCODEC1_MMCC_POWER_CONTROL, WRAPPER_VCODEC1_MMCC_POWER_STATUS))
      in if enable then
           (let h1 = writel 0 ctrl h;
                (ret, h2) = readl_poll_timeout ev stat (\<lambda>val. val AND BIT 1 \<noteq> 0) 1 100 h1
            in if ret \<noteq> 0 then (ret, h2) else (0, h2))
         else
           (let h1 = writel 1 ctrl h;
                (ret, h2) = readl_poll_timeout ev stat (\<lambda>val. \<not> (val AND BIT 1 \<noteq> 0)) 1 100 h1
            in if ret \<noteq> 0 then (ret, h2) else (0, h2)))"

section \<open>Per-core power sequencer\<close>

text \<open>Modelled from the spec: power-domain \<open>acquire()\<close> and \<open>release()\<close>
  (\<^verbatim>\<open>pm_runtime_get_sync\<close>, \<^verbatim>\<open>pm_runtime_put_sync\<close>), each returning a status.\<close>

definition pm_runtime_get_sync :: "env \<Rightarrow> ptr \<Rightarrow> hw \<Rightarrow> int \<times> hw" where
  "pm_runtime_get_sync ev pd h =
     (let ret = pm_runtime_get_sync_res ev (trace h) pd
      in (ret, log_event (EvPmRuntimeGetSync pd ret) h))"

definition pm_runtime_put_sync :: "env \<Rightarrow> ptr \<Rightarrow> hw \<Rightarrow> int \<times> hw" where
  "pm_runtime_put_sync ev pd h =
     (let ret = pm_runtime_put_sync_res ev (trace h) pd
      in (ret, log_event (EvPmRuntimePutSync pd ret) h))"

text \<open>\<^verbatim>\<open>dev_err\<close>: the message is recorded by its format (without the trailing newline)
  and its integer arguments.\<close>

definition dev_err :: "string \<Rightarrow> int list \<Rightarrow> hw \<Rightarrow> hw" where
  "dev_err fmt args h = log_event (EvDevErr fmt args) h"

text \<open>\<^verbatim>\<open>poweroff_by_core_id\<close>. Each of its two \<^verbatim>\<open>if\<close> blocks is a function that yields
  whether the block executed a \<^verbatim>\<open>return\<close>, the value of \<^verbatim>\<open>ret\<close>, and the state.\<close>

definition poweroff_core1 :: "env \<Rightarrow> venus_core \<Rightarrow> hw \<Rightarrow> bool \<times> int \<times> hw" where
  "poweroff_core1 ev core h0 =
     (let (ret, h1) = vcodec_power_control_v4 ev core VIDC_CORE_ID_1 True h0 in
      if ret \<noteq> 0 then (True, ret, h1)
      else
        (let h2 = clk_disable_unprepare (core0_bus_clk core) h1;
             h3 = clk_disable_unprepare (core0_clk core) h2;
             (ret, h4) = vcodec_power_control_v4 ev core VIDC_CORE_ID_1 False h3;
             h5 = (if ret \<noteq> 0 then dev_err ''%s: power off vcodec0 failed %d'' [ret] h4 else h4);
             (ret, h6) = pm_runtime_put_sync ev (pd_core0 core) h5
         in if ret < 0 then (True, ret, h6) else (False, ret, h6)))"

definition poweroff_core2 :: "env \<Rightarrow> venus_core \<Rightarrow> hw \<Rightarrow> bool \<times> int \<times> hw" where
  "poweroff_core2 ev core h0 =
     (let (ret, h1) = vcodec_power_control_v4 ev core VIDC_CORE_ID_2 True h0 in
      if ret \<noteq> 0 then (True, ret, h1)
      else
        (let h2 = clk_disable_unprepare (core1_bus_clk core) h1;
             h3 = clk_disable_unprepare (core1_clk core) h2;
             (ret, h4) = vcodec_power_control_v4 ev core VIDC_CORE_ID_2 False h3;
             h5 = (if ret \<noteq> 0 then dev_err ''%s: power off vcodec1 failed %d'' [ret] h4 else h4);
             (ret, h6) = pm_runtime_put_sync ev (pd_core1 core) h5
         in (False, ret, h6)))"

definition poweroff_by_core_id :: "env \<Rightarrow> venus_core \<Rightarrow> u32 \<Rightarrow> hw \<Rightarrow> int \<times> hw" where
  "poweroff_by_core_id ev core coreid_mask h =
     (let (returned, ret, h1) =
            (if coreid_mask AND VIDC_CORE_ID_1 \<noteq> 0 then poweroff_core1 ev core h
             else (False, uninit_int ev, h))
      in if returned then (ret, h1)
         else
           (let (returned, ret, h2) =
                  (if coreid_mask AND VIDC_CORE_ID_2 \<noteq> 0 then poweroff_core2 ev core h1
                   else (False, ret, h1))
            in (ret, h2)))"

text \<open>\<^verbatim>\<open>poweron_by_core_id\<close>, block by block in the same way.\<close>

definition poweron_core1 :: "env \<Rightarrow> venus_core \<Rightarrow> hw \<Rightarrow> bool \<times> int \<times> hw" where
  "poweron_core1 ev core h0 =
     (let (ret, h1) = pm_runtime_get_sync ev (pd_core0 core) h0 in
      if ret < 0 then (True, ret, h1) else
      (let (ret, h2) = vcodec_power_control_v4 ev core VIDC_CORE_ID_1 True h1 in
       if ret \<noteq> 0 then (True, ret, h2) else
       (let (ret, h3) = clk_prepare_enable ev (core0_clk core) h2 in
        if ret \<noteq> 0 then (True, ret, h3) else
        (let (ret, h4) = clk_prepare_enable ev (core0_bus_clk core) h3 in
         if ret \<noteq> 0 then (True, ret, h4) else
         (let (ret, h5) = vcodec_power_control_v4 ev core VIDC_CORE_ID_1 False h4 in
          if ret < 0 then (True, ret, h5) else (False, ret, h5))))))"

definition poweron_core2 :: "env \<Rightarrow> venus_core \<Rightarrow> hw \<Rightarrow> bool \<times> int \<times> hw" where
  "poweron_core2 ev core h0 =
     (let (ret, h1) = pm_runtime_get_sync ev (pd_core1 core) h0 in
      if ret < 0 then (True, ret, h1) else
      (let (ret, h2) = vcodec_power_control_v4 ev core VIDC_CORE_ID_2 True h1 in
       if ret \<noteq> 0 then (True, ret, h2) else
       (let (ret, h3) = clk_prepare_enable ev (core1_clk core) h2 in
        if ret \<noteq> 0 then (True, ret, h3) else
        (let (ret, h4) = clk_prepare_enable ev (core1_bus_clk core) h3 in
         if ret \<noteq> 0 then (True, ret, h4) else
         (let (ret, h5) = vcodec_power_control_v4 ev core VIDC_CORE_ID_2 False h4 in
          (False, ret, h5))))))"

definition poweron_by_core_id :: "env \<Rightarrow> venus_core \<Rightarrow> u32 \<Rightarrow> hw \<Rightarrow> int \<times> hw" where
  "poweron_by_core_id ev core coreid_mask h =
     (let (returned, ret, h1) =
            (if coreid_mask AND VIDC_CORE_ID_1 \<noteq> 0 then poweron_core1 ev core h
             else (False, uninit_int ev, h))
      in if returned then (ret, h1)
         else
           (let (returned, ret, h2) =
                  (if coreid_mask AND VIDC_CORE_ID_2 \<noteq> 0 then poweron_core2 ev core h1
                   else (False, ret, h1))
            in (ret, h2)))"


section \<open>Version strategies\<close>

text \<open>The drivers' \<^verbatim>\<open>dev_get_drvdata(dev)\<close> is the core itself: every operation takes the
  core where the C function takes the device.\<close>

subsection \<open>V1\<close>

definition core_get_pm_v1 :: "env \<Rightarrow> venus_core \<Rightarrow> hw \<Rightarrow> int \<times> venus_core \<times> hw" where
  "core_get_pm_v1 ev core h = core_clks_get ev core h"

definition core_power_v1 :: "env \<Rightarrow> venus_core \<Rightarrow> int \<Rightarrow> hw \<Rightarrow> int \<times> hw" where
  "core_power_v1 ev core on h =
     (let ret = 0 in
      if on = POWER_ON then core_clks_enable ev core h
      else (ret, core_clks_disable core h))"

subsection \<open>V3\<close>

definition vdec_get_pm_v3 :: "env \<Rightarrow> venus_core \<Rightarrow> hw \<Rightarrow> int \<times> venus_core \<times> hw" where
  "vdec_get_pm_v3 ev core h =
     (let (p, h1) = devm_clk_get ev ''core'' h;
          core1 = core\<lparr>core0_clk := p\<rparr>
      in if IS_ERR p then (PTR_ERR p, core1, h1) else (0, core1, h1))"

definition vdec_power_v3 :: "env \<Rightarrow> venus_core \<Rightarrow> int \<Rightarrow> hw \<Rightarrow> int \<times> hw" where
  "vdec_power_v3 ev core on h =
     (let ret = 0 in
      if on = POWER_ON then
        (let h1 = vcodec_power_control_v3 core VIDC_SESSION_TYPE_DEC True h;
             (ret, h2) = clk_prepare_enable ev (core0_clk core) h1;
             h3 = vcodec_power_control_v3 core VIDC_SESSION_TYPE_DEC False h2
         in (ret, h3))
      else
        (let h1 = vcodec_power_control_v3 core VIDC_SESSION_TYPE_DEC True h;
             h2 = clk_disable_unprepare (core0_clk core) h1;
             h3 = vcodec_power_control_v3 core VIDC_SESSION_TYPE_DEC False h2
         in (ret, h3)))"

definition venc_get_pm_v3 :: "env \<Rightarrow> venus_core \<Rightarrow> hw \<Rightarrow> int \<times> venus_core \<times> hw" where
  "venc_get_pm_v3 ev core h =
     (let (p, h1) = devm_clk_get ev ''core'' h;
          core1 = core\<lparr>core1_clk := p\<rparr>
      in if IS_ERR p then (PTR_ERR p, core1, h1) else (0, core1, h1))"

definition venc_power_v3 :: "env \<Rightarrow> venus_core \<Rightarrow> int \<Rightarrow> hw \<Rightarrow> int \<times> hw" where
  "venc_power_v3 ev core on h =
     (let ret = 0 in
      if on = POWER_ON then
        (let h1 = vcodec_power_control_v3 core VIDC_SESSION_TYPE_ENC True h;
             (ret, h2) = clk_prepare_enable ev (core1_clk core) h1;
             h3 = vcodec_power_control_v3 core VIDC_SESSION_TYPE_ENC False h2
         in (ret, h3))
      else
        (let h1 = vcodec_power_control_v3 core VIDC_SESSION_TYPE_ENC True h;
             h2 = clk_disable_unprepare (core1_clk core) h1;
             h3 = vcodec_power_control_v3 core VIDC_SESSION_TYPE_ENC False h2
         in (ret, h3)))"

subsection \<open>V4\<close>

text \<open>Modelled from the spec: power-domain attach-by-name and detach
  (\<^verbatim>\<open>dev_pm_domain_attach_by_name\<close>, \<^verbatim>\<open>dev_pm_domain_detach\<close>), and device-link creation
  and removal (\<^verbatim>\<open>device_link_add\<close>, \<^verbatim>\<open>device_link_del\<close>).\<close>

definition dev_pm_domain_attach_by_name :: "env \<Rightarrow> string \<Rightarrow> hw \<Rightarrow> ptr \<times> hw" where
  "dev_pm_domain_attach_by_name ev name h =
     (let p = pm_domain_attach_res ev (trace h) name
      in (p, log_event (EvPmDomainAttach name p) h))"

definition dev_pm_domain_detach :: "ptr \<Rightarrow> bool \<Rightarrow> hw \<Rightarrow> hw" where
  "dev_pm_domain_detach pd power_off h = log_event (EvPmDomainDetach pd power_off) h"

definition device_link_add :: "env \<Rightarrow> ptr \<Rightarrow> dl_flag list \<Rightarrow> hw \<Rightarrow> ptr \<times> hw" where
  "device_link_add ev supplier flags h =
     (let l = device_link_add_res ev (trace h) supplier flags
      in (l, log_event (EvDeviceLinkAdd supplier flags l) h))"

definition device_link_del :: "ptr \<Rightarrow> hw \<Rightarrow> hw" where
  "device_link_del l h = log_event (EvDeviceLinkDel l) h"

definition core_get_pm_v4 :: "env \<Rightarrow> venus_core \<Rightarrow> hw \<Rightarrow> int \<times> venus_core \<times> hw" where
  "core_get_pm_v4 ev core0 h0 =
     (let (ret, core, h) = core_clks_get ev core0 h0 in
      if ret \<noteq> 0 then (ret, core, h) else
      (let (p, h) = devm_clk_get ev ''vcodec0_core'' h; core = core\<lparr>core0_clk := p\<rparr> in
       if IS_ERR p then (PTR_ERR p, core, h) else
       (let (p, h) = devm_clk_get ev ''vcodec0_bus'' h; core = core\<lparr>core0_bus_clk := p\<rparr> in
        if IS_ERR p then (PTR_ERR p, core, h) else
        (let (p, h) = devm_clk_get ev ''vcodec1_core'' h; core = core\<lparr>core1_clk := p\<rparr> in
         if IS_ERR p then (PTR_ERR p, core, h) else
         (let (p, h) = devm_clk_get ev ''vcodec1_bus'' h; core = core\<lparr>core1_bus_clk := p\<rparr> in
          if IS_ERR p then (PTR_ERR p, core, h) else
          (let (p, h) = dev_pm_domain_attach_by_name ev ''venus'' h; core = core\<lparr>pd_core := p\<rparr> in
           if IS_ERR p then (PTR_ERR p, core, h) else
           (let (p, h) = dev_pm_domain_attach_by_name ev ''vcodec0'' h; core = core\<lparr>pd_core0 := p\<rparr> in
            if IS_ERR p then (PTR_ERR p, core, h) else
            (let (p, h) = dev_pm_domain_attach_by_name ev ''vcodec1'' h; core = core\<lparr>pd_core1 := p\<rparr> in
             if IS_ERR p then (PTR_ERR p, core, h) else
             (let (l, h) = device_link_add ev (pd_core core)
                             [DL_FLAG_PM_RUNTIME, DL_FLAG_STATELESS, DL_FLAG_RPM_ACTIVE] h;
                  core = core\<lparr>pd_dl_venus := l\<rparr> in
              if l = NULL then
                (- ENODEV, core, dev_err ''adding venus device link failed!'' [] h)
              else (0, core, h))))))))))"

definition core_put_pm_v4 :: "venus_core \<Rightarrow> hw \<Rightarrow> hw" where
  "core_put_pm_v4 core h0 =
     (let h1 = (if pd_dl_venus core \<noteq> NULL then device_link_del (pd_dl_venus core) h0 else h0);
          h2 = (if \<not> IS_ERR_OR_NULL (pd_core core)
                then dev_pm_domain_detach (pd_core core) True h1 else h1);
          h3 = (if \<not> IS_ERR_OR_NULL (pd_core0 core)
                then dev_pm_domain_detach (pd_core0 core) True h2 else h2);
          h4 = (if \<not> IS_ERR_OR_NULL (pd_core1 core)
                then dev_pm_domain_detach (pd_core1 core) True h3 else h3)
      in h4)"

definition core_power_v4 :: "env \<Rightarrow> venus_core \<Rightarrow> int \<Rightarrow> hw \<Rightarrow> int \<times> hw" where
  "core_power_v4 ev core on h =
     (if on = POWER_ON then
        (let (ret, h1) = core_clks_enable ev core h in
         if ret \<noteq> 0 then (ret, dev_err ''core clocks enable failed (%d)'' [ret] h1)
         else poweron_by_core_id ev core (VIDC_CORE_ID_1 OR VIDC_CORE_ID_2) h1)
      else
        (let (ret, h1) = poweroff_by_core_id ev core (VIDC_CORE_ID_1 OR VIDC_CORE_ID_2) h;
             h2 = (if ret \<noteq> 0 then dev_err ''poweroff by core failed (%d)'' [ret] h1 else h1);
             h3 = core_clks_disable core h2
         in (ret, h3)))"

section \<open>Version strategy selector\<close>

text \<open>\<^verbatim>\<open>struct venus_pm_ops\<close>: a table of function pointers, \<open>None\<close> where the C
  initialiser leaves the pointer null.\<close>

record venus_pm_ops =
  core_get_pm :: "(env \<Rightarrow> venus_core \<Rightarrow> hw \<Rightarrow> int \<times> venus_core \<times> hw) option"
  core_put_pm :: "(venus_core \<Rightarrow> hw \<Rightarrow> hw) option"
  core_power :: "(env \<Rightarrow> venus_core \<Rightarrow> int \<Rightarrow> hw \<Rightarrow> int \<times> hw) option"
  vdec_get_pm :: "(env \<Rightarrow> venus_core \<Rightarrow> hw \<Rightarrow> int \<times> venus_core \<times> hw) option"
  vdec_power :: "(env \<Rightarrow> venus_core \<Rightarrow> int \<Rightarrow> hw \<Rightarrow> int \<times> hw) option"
  venc_get_pm :: "(env \<Rightarrow> venus_core \<Rightarrow> hw \<Rightarrow> int \<times> venus_core \<times> hw) option"
  venc_power :: "(env \<Rightarrow> venus_core \<Rightarrow> int \<Rightarrow> hw \<Rightarrow> int \<times> hw) option"

definition venus_pm_ops_v1 :: venus_pm_ops where
  "venus_pm_ops_v1 = \<lparr>
     core_get_pm = Some core_get_pm_v1,
     core_put_pm = None,
     core_power = Some core_power_v1,
     vdec_get_pm = None, vdec_power = None,
     venc_get_pm = None, venc_power = None\<rparr>"

definition venus_pm_ops_v3 :: venus_pm_ops where
  "venus_pm_ops_v3 = \<lparr>
     core_get_pm = Some core_get_pm_v1,
     core_put_pm = None,
     core_power = Some core_power_v1,
     vdec_get_pm = Some vdec_get_pm_v3, vdec_power = Some vdec_power_v3,
     venc_get_pm = Some venc_get_pm_v3, venc_power = Some venc_power_v3\<rparr>"

definition venus_pm_ops_v4 :: venus_pm_ops where
  "venus_pm_ops_v4 = \<lparr>
     core_get_pm = Some core_get_pm_v4,
     core_put_pm = Some core_put_pm_v4,
     core_power = Some core_power_v4,
     vdec_get_pm = None, vdec_power = None,
     venc_get_pm = None, venc_power = None\<rparr>"

text \<open>Modelled from the spec: \<^verbatim>\<open>enum hfi_version\<close> (declared in \<^verbatim>\<open>core.h\<close>), the three
  recognised hardware generations. A C enumeration is an integer type, so a version is
  any 32-bit value.\<close>

definition HFI_VERSION_1XX :: u32 where
  "HFI_VERSION_1XX = 0"

definition HFI_VERSION_3XX :: u32 where
  "HFI_VERSION_3XX = 1"

definition HFI_VERSION_4XX :: u32 where
  "HFI_VERSION_4XX = 2"

text \<open>\<^verbatim>\<open>venus_get_pm_ops\<close>: the \<^verbatim>\<open>switch\<close>, with \<^verbatim>\<open>default\<close> sharing the first case's
  body. The result is a pointer to the table; \<open>None\<close> would be the null pointer of the
  unreachable last line.\<close>

definition venus_get_pm_ops :: "u32 \<Rightarrow> venus_pm_ops option" where
  "venus_get_pm_ops version =
     (if version = HFI_VERSION_1XX then Some venus_pm_ops_v1
      else if version = HFI_VERSION_3XX then Some venus_pm_ops_v3
      else if version = HFI_VERSION_4XX then Some venus_pm_ops_v4
      else Some venus_pm_ops_v1)"


section \<open>Observations and test doubles used in the statements\<close>

text \<open>\<open>enable_result_at ev h cs i\<close> is the return code the environment gives to the
  enable of clock \<open>i\<close> of the set \<open>cs\<close>, when the clocks before it were enabled
  successfully, one after the other, starting in state \<open>h\<close>.\<close>

definition enable_result_at :: "env \<Rightarrow> hw \<Rightarrow> ptr list \<Rightarrow> nat \<Rightarrow> int" where
  "enable_result_at ev h cs i =
     clk_prepare_enable_res ev (trace h @ map (\<lambda>c. EvClkPrepareEnable c 0) (take i cs)) (cs ! i)"

text \<open>A device with three shared clocks and an environment in which every call succeeds;
  the status register follows the last write to the control register.\<close>

definition example_res :: venus_resources where
  "example_res = \<lparr>res_clks = (\<lambda>i. if i = 0 then ''core'' else if i = 1 then ''iface'' else ''bus''),
                  clks_num = 3\<rparr>"

definition example_core :: venus_core where
  "example_core = \<lparr>res = example_res, clks = (\<lambda>i. 4096 + 8 * of_nat i),
     core0_clk = 8192, core0_bus_clk = 8200, core1_clk = 8208, core1_bus_clk = 8216,
     pd_core = 12288, pd_core0 = 12296, pd_core1 = 12304, pd_dl_venus = 16384\<rparr>"

definition example_env :: env where
  "example_env = \<lparr>
     devm_clk_get_res = (\<lambda>tr name. 4096 + 8 * of_nat (length tr)),
     clk_prepare_enable_res = (\<lambda>tr clk. 0),
     readl_res = (\<lambda>tr r k. case last tr of EvWritel v _ \<Rightarrow> if v = 0 then 2 else 0 | _ \<Rightarrow> 0),
     pm_runtime_get_sync_res = (\<lambda>tr pd. 0),
     pm_runtime_put_sync_res = (\<lambda>tr pd. 0),
     pm_domain_attach_res = (\<lambda>tr name. 12288 + 8 * of_nat (length tr)),
     device_link_add_res = (\<lambda>tr pd fl. 16384),
     uninit_int = 0\<rparr>"

definition example_hw :: hw where
  "example_hw = \<lparr>clk_enable_count = (\<lambda>c. 0), trace = []\<rparr>"


text \<open>The control and status register of a core, as \<^verbatim>\<open>vcodec_power_control_v4\<close>
  selects them.\<close>

definition power_control_reg :: "u32 \<Rightarrow> reg" where
  "power_control_reg coreid =
     (if coreid = VIDC_CORE_ID_1 then WRAPPER_VCODEC0_MMCC_POWER_CONTROL
      else WRAPPER_VCODEC1_MMCC_POWER_CONTROL)"

definition power_status_reg :: "u32 \<Rightarrow> reg" where
  "power_status_reg coreid =
     (if coreid = VIDC_CORE_ID_1 then WRAPPER_VCODEC0_MMCC_POWER_STATUS
      else WRAPPER_VCODEC1_MMCC_POWER_STATUS)"


text \<open>A state in which another user already holds the first shared clock twice.\<close>

definition busy_hw :: hw where
  "busy_hw = \<lparr>clk_enable_count = (\<lambda>c. if c = 4096 then 2 else 0), trace = []\<rparr>"

text \<open>The status source a handshake polls after its write to the control register, and
  whether poll \<open>k\<close> sees the status bit at the requested value.\<close>

definition status_source :: "env \<Rightarrow> hw \<Rightarrow> u32 \<Rightarrow> bool \<Rightarrow> nat \<Rightarrow> u32" where
  "status_source ev h coreid enable =
     readl_res ev (trace h @ [EvWritel (if enable then 0 else 1) (power_control_reg coreid)])
       (power_status_reg coreid)"

definition status_reached :: "env \<Rightarrow> hw \<Rightarrow> u32 \<Rightarrow> bool \<Rightarrow> nat \<Rightarrow> bool" where
  "status_reached ev h coreid enable k =
     ((status_source ev h coreid enable k AND BIT 1 \<noteq> 0) = enable)"


text \<open>An environment whose status registers never change (the status bit stays clear).\<close>

definition stuck_env :: env where
  "stuck_env = example_env\<lparr>readl_res := (\<lambda>tr r k. 0)\<rparr>"

text \<open>The per-core resources, by core identifier.\<close>

definition core_clk_of :: "venus_core \<Rightarrow> u32 \<Rightarrow> ptr" where
  "core_clk_of core coreid = (if coreid = VIDC_CORE_ID_1 then core0_clk core else core1_clk core)"

definition core_bus_clk_of :: "venus_core \<Rightarrow> u32 \<Rightarrow> ptr" where
  "core_bus_clk_of core coreid =
     (if coreid = VIDC_CORE_ID_1 then core0_bus_clk core else core1_bus_clk core)"

definition core_pd_of :: "venus_core \<Rightarrow> u32 \<Rightarrow> ptr" where
  "core_pd_of core coreid = (if coreid = VIDC_CORE_ID_1 then pd_core0 core else pd_core1 core)"

text \<open>The calls of one core's complete power-off sequence: assert the handshake (which
  succeeds), disable the core-bus clock and the core clock, de-assert the handshake
  (returning \<open>r2\<close>, logged when it is a failure), release the power domain (returning
  \<open>r3\<close>). \<open>vs1\<close> and \<open>vs2\<close> are the status values the two polls read.\<close>

definition power_off_msg :: "u32 \<Rightarrow> string" where
  "power_off_msg coreid =
     (if coreid = VIDC_CORE_ID_1 then ''%s: power off vcodec0 failed %d''
      else ''%s: power off vcodec1 failed %d'')"

definition core_off_events ::
  "venus_core \<Rightarrow> u32 \<Rightarrow> u32 list \<Rightarrow> u32 list \<Rightarrow> int \<Rightarrow> int \<Rightarrow> event list" where
  "core_off_events core coreid vs1 vs2 r2 r3 =
     [EvWritel 0 (power_control_reg coreid), EvReadlPoll (power_status_reg coreid) vs1 0,
      EvClkDisableUnprepare (core_bus_clk_of core coreid),
      EvClkDisableUnprepare (core_clk_of core coreid),
      EvWritel 1 (power_control_reg coreid), EvReadlPoll (power_status_reg coreid) vs2 r2]
     @ (if r2 \<noteq> 0 then [EvDevErr (power_off_msg coreid) [r2]] else [])
     @ [EvPmRuntimePutSync (core_pd_of core coreid) r3]"

text \<open>An environment in which the status bit stays set and every domain release fails,
  and one in which only the release of the first core's domain fails.\<close>

definition held_env :: env where
  "held_env = example_env\<lparr>readl_res := (\<lambda>tr r k. 2), pm_runtime_put_sync_res := (\<lambda>tr pd. - 5)\<rparr>"

definition release_fail_env :: env where
  "release_fail_env =
     example_env\<lparr>pm_runtime_put_sync_res := (\<lambda>tr pd. if pd = 12296 then - 5 else 0)\<rparr>"

text \<open>A call without its results: the view of the trace on which the order of
  operations is stated.\<close>

datatype call =
    CallDevmClkGet string
  | CallClkPrepareEnable ptr
  | CallClkDisableUnprepare ptr
  | CallWritel u32 reg
  | CallReadlPoll reg
  | CallPmRuntimeGetSync ptr
  | CallPmRuntimePutSync ptr
  | CallPmDomainAttach string
  | CallPmDomainDetach ptr bool
  | CallDeviceLinkAdd ptr "dl_flag list"
  | CallDeviceLinkDel ptr
  | CallDevErr string

fun call_of :: "event \<Rightarrow> call" where
  "call_of (EvDevmClkGet name p) = CallDevmClkGet name"
| "call_of (EvClkPrepareEnable clk ret) = CallClkPrepareEnable clk"
| "call_of (EvClkDisableUnprepare clk) = CallClkDisableUnprepare clk"
| "call_of (EvWritel val addr) = CallWritel val addr"
| "call_of (EvReadlPoll addr vals ret) = CallReadlPoll addr"
| "call_of (EvPmRuntimeGetSync pd ret) = CallPmRuntimeGetSync pd"
| "call_of (EvPmRuntimePutSync pd ret) = CallPmRuntimePutSync pd"
| "call_of (EvPmDomainAttach name p) = CallPmDomainAttach name"
| "call_of (EvPmDomainDetach pd power_off) = CallPmDomainDetach pd power_off"
| "call_of (EvDeviceLinkAdd supplier flags l) = CallDeviceLinkAdd supplier flags"
| "call_of (EvDeviceLinkDel l) = CallDeviceLinkDel l"
| "call_of (EvDevErr fmt args) = CallDevErr fmt"

text \<open>The calls of one core's complete power-on sequence: acquire the power domain,
  assert the handshake and wait for the status, enable the core clock, enable the
  core-bus clock, de-assert the handshake and wait for the status.\<close>

definition core_on_calls :: "venus_core \<Rightarrow> u32 \<Rightarrow> call list" where
  "core_on_calls core coreid =
     [CallPmRuntimeGetSync (core_pd_of core coreid),
      CallWritel 0 (power_control_reg coreid), CallReadlPoll (power_status_reg coreid),
      CallClkPrepareEnable (core_clk_of core coreid),
      CallClkPrepareEnable (core_bus_clk_of core coreid),
      CallWritel 1 (power_control_reg coreid), CallReadlPoll (power_status_reg coreid)]"

text \<open>V4 \<open>get\<close> as the spec words it, for comparison with \<^verbatim>\<open>core_get_pm_v4\<close>: a list of
  resources (named clocks and named power domains, each stored in a field of the core),
  resolved in order by \<open>resolve_all\<close>, which stops at the first one that fails and yields
  its error. Lemma \<open>core_get_pm_v4_resolve\<close> below shows that the code does exactly this,
  followed by the creation of the device link.\<close>

datatype clk_field = ClksAt nat | Core0Clk | Core0BusClk | Core1Clk | Core1BusClk

datatype pd_field = PdCore | PdCore0 | PdCore1

fun set_clk :: "clk_field \<Rightarrow> ptr \<Rightarrow> venus_core \<Rightarrow> venus_core" where
  "set_clk (ClksAt i) p core = core\<lparr>clks := (clks core)(i := p)\<rparr>"
| "set_clk Core0Clk p core = core\<lparr>core0_clk := p\<rparr>"
| "set_clk Core0BusClk p core = core\<lparr>core0_bus_clk := p\<rparr>"
| "set_clk Core1Clk p core = core\<lparr>core1_clk := p\<rparr>"
| "set_clk Core1BusClk p core = core\<lparr>core1_bus_clk := p\<rparr>"

fun set_pd :: "pd_field \<Rightarrow> ptr \<Rightarrow> venus_core \<Rightarrow> venus_core" where
  "set_pd PdCore p core = core\<lparr>pd_core := p\<rparr>"
| "set_pd PdCore0 p core = core\<lparr>pd_core0 := p\<rparr>"
| "set_pd PdCore1 p core = core\<lparr>pd_core1 := p\<rparr>"

datatype resource = Clock string clk_field | Domain string pd_field

fun resolve :: "env \<Rightarrow> resource \<Rightarrow> venus_core \<Rightarrow> hw \<Rightarrow> int \<times> venus_core \<times> hw" where
  "resolve ev (Clock name f) core h =
     (let (p, h1) = devm_clk_get ev name h
      in (if IS_ERR p then PTR_ERR p else 0, set_clk f p core, h1))"
| "resolve ev (Domain name f) core h =
     (let (p, h1) = dev_pm_domain_attach_by_name ev name h
      in (if IS_ERR p then PTR_ERR p else 0, set_pd f p core, h1))"

fun resolve_all :: "env \<Rightarrow> resource list \<Rightarrow> venus_core \<Rightarrow> hw \<Rightarrow> int \<times> venus_core \<times> hw" where
  "resolve_all ev [] core h = (0, core, h)"
| "resolve_all ev (r # rs) core h =
     (let (ret, core1, h1) = resolve ev r core h
      in if ret \<noteq> 0 then (ret, core1, h1) else resolve_all ev rs core1 h1)"

definition shared_clocks :: "venus_resources \<Rightarrow> nat \<Rightarrow> resource list" where
  "shared_clocks r i = map (\<lambda>j. Clock (res_clks r j) (ClksAt j)) [i..<clks_num r]"

definition v4_resources :: "venus_resources \<Rightarrow> resource list" where
  "v4_resources r =
     shared_clocks r 0 @
     [Clock ''vcodec0_core'' Core0Clk, Clock ''vcodec0_bus'' Core0BusClk,
      Clock ''vcodec1_core'' Core1Clk, Clock ''vcodec1_bus'' Core1BusClk,
      Domain ''venus'' PdCore, Domain ''vcodec0'' PdCore0, Domain ''vcodec1'' PdCore1]"

fun resource_call :: "resource \<Rightarrow> call" where
  "resource_call (Clock name f) = CallDevmClkGet name"
| "resource_call (Domain name f) = CallPmDomainAttach name"

definition get_pm_v4_calls :: "venus_resources \<Rightarrow> ptr \<Rightarrow> call list" where
  "get_pm_v4_calls r supplier =
     map resource_call (v4_resources r) @
     [CallDeviceLinkAdd supplier [DL_FLAG_PM_RUNTIME, DL_FLAG_STATELESS, DL_FLAG_RPM_ACTIVE]]"

text \<open>The error a resolution call reports, if it failed, and which calls establish the
  device link.\<close>

fun failure_of :: "event \<Rightarrow> int option" where
  "failure_of (EvDevmClkGet name p) = (if IS_ERR p then Some (PTR_ERR p) else None)"
| "failure_of (EvPmDomainAttach name p) = (if IS_ERR p then Some (PTR_ERR p) else None)"
| "failure_of (EvDeviceLinkAdd supplier flags l) = (if l = NULL then Some (- ENODEV) else None)"
| "failure_of _ = None"

fun is_link_add :: "event \<Rightarrow> bool" where
  "is_link_add (EvDeviceLinkAdd supplier flags l) = True"
| "is_link_add _ = False"

text \<open>\<open>first_failure d calls ret\<close>: the calls of \<open>d\<close> are an initial segment of
  \<open>calls\<close>; none but the last one failed; with \<open>ret = 0\<close> all calls were made and none
  failed, otherwise the last call failed with \<open>ret\<close>.\<close>

definition first_failure :: "event list \<Rightarrow> call list \<Rightarrow> int \<Rightarrow> bool" where
  "first_failure d calls ret =
     (prefix (map call_of d) calls \<and>
      list_all (\<lambda>e. failure_of e = None) (butlast d) \<and>
      (if ret = 0 then map call_of d = calls \<and> list_all (\<lambda>e. failure_of e = None) d
       else d \<noteq> [] \<and> failure_of (last d) = Some ret))"

text \<open>A zero-initialised core, and environments in which one clock, or one power domain,
  cannot be resolved.\<close>

definition fresh_core :: venus_core where
  "fresh_core = \<lparr>res = example_res, clks = (\<lambda>i. NULL),
     core0_clk = NULL, core0_bus_clk = NULL, core1_clk = NULL, core1_bus_clk = NULL,
     pd_core = NULL, pd_core0 = NULL, pd_core1 = NULL, pd_dl_venus = NULL\<rparr>"

definition missing_clock_env :: env where
  "missing_clock_env = example_env\<lparr>devm_clk_get_res :=
     (\<lambda>tr name. if name = ''vcodec1_core'' then ERR_PTR (- 2) else 4096 + 8 * of_nat (length tr))\<rparr>"

definition missing_domain_env :: env where
  "missing_domain_env = example_env\<lparr>pm_domain_attach_res :=
     (\<lambda>tr name. if name = ''vcodec1'' then ERR_PTR (- 517) else 12288 + 8 * of_nat (length tr))\<rparr>"

section \<open>Clock set manager: atomic enable\<close>

lemma clks_disable_down_closed:
  "clks_disable_down core n h =
     h\<lparr>clk_enable_count := (\<lambda>c. clk_enable_count h c - count_list (map (clks core) [0..<n]) c),
       trace := trace h @ map EvClkDisableUnprepare (rev (map (clks core) [0..<n]))\<rparr>"
  by (induction n arbitrary: h) (auto simp add: clk_disable_unprepare_def fun_eq_iff)

lemma clock_set_take: "k \<le> clks_num (res core) \<Longrightarrow> take k (clock_set core) = map (clks core) [0..<k]"
  by (simp add: clock_set_def take_map)

lemma clock_set_nth: "k < clks_num (res core) \<Longrightarrow> clock_set core ! k = clks core k"
  by (simp add: clock_set_def)

lemma core_clks_enable_from_fail:
  assumes "i \<le> k" "k < clks_num (res core)"
    and "\<forall>j. i \<le> j \<and> j < k \<longrightarrow>
           clk_prepare_enable_res ev
             (trace h @ map (\<lambda>c. EvClkPrepareEnable c 0) (map (clks core) [i..<j])) (clks core j) = 0"
    and "clk_prepare_enable_res ev
           (trace h @ map (\<lambda>c. EvClkPrepareEnable c 0) (map (clks core) [i..<k])) (clks core k) = e"
    and "e \<noteq> 0"
  shows "core_clks_enable_from ev core i h =
           (e, k, h\<lparr>clk_enable_count :=
                      (\<lambda>c. clk_enable_count h c + count_list (map (clks core) [i..<k]) c),
                    trace := trace h @ map (\<lambda>c. EvClkPrepareEnable c 0) (map (clks core) [i..<k])
                               @ [EvClkPrepareEnable (clks core k) e]\<rparr>)"
  using assms
proof (induction "k - i" arbitrary: i h)
  case 0
  then have "i = k" by simp
  with 0 show ?case
    by (simp add: clk_prepare_enable_def)
next
  case (Suc d)
  then have ik: "i < k" by simp
  let ?h1 = "h\<lparr>clk_enable_count := (clk_enable_count h)(clks core i := Suc (clk_enable_count h (clks core i))),
               trace := trace h @ [EvClkPrepareEnable (clks core i) 0]\<rparr>"
  from Suc.prems(3) ik have r0: "clk_prepare_enable_res ev (trace h) (clks core i) = 0"
    by (metis append_Nil2 le_refl list.simps(8) upt_rec less_irrefl)
  have step: "core_clks_enable_from ev core i h = core_clks_enable_from ev core (Suc i) ?h1"
    using ik Suc.prems(2) r0 by (simp add: clk_prepare_enable_def)
  have upt: "\<And>j. i < j \<Longrightarrow> [i..<j] = i # [Suc i..<j]"
    by (simp add: upt_conv_Cons)
  have "core_clks_enable_from ev core (Suc i) ?h1 =
          (e, k, ?h1\<lparr>clk_enable_count :=
                      (\<lambda>c. clk_enable_count ?h1 c + count_list (map (clks core) [Suc i..<k]) c),
                    trace := trace ?h1 @ map (\<lambda>c. EvClkPrepareEnable c 0) (map (clks core) [Suc i..<k])
                               @ [EvClkPrepareEnable (clks core k) e]\<rparr>)"
  proof (rule Suc.hyps(1))
    show "d = k - Suc i" using Suc.hyps(2) by simp
    show "Suc i \<le> k" using ik by simp
    show "k < clks_num (res core)" by fact
    show "e \<noteq> 0" by fact
    show "\<forall>j. Suc i \<le> j \<and> j < k \<longrightarrow>
           clk_prepare_enable_res ev
             (trace ?h1 @ map (\<lambda>c. EvClkPrepareEnable c 0) (map (clks core) [Suc i..<j])) (clks core j) = 0"
    proof (intro allI impI)
      fix j assume a: "Suc i \<le> j \<and> j < k"
      then have ij: "i < j" and b: "i \<le> j \<and> j < k" by auto
      from Suc.prems(3) b have "clk_prepare_enable_res ev
             (trace h @ map (\<lambda>c. EvClkPrepareEnable c 0) (map (clks core) [i..<j])) (clks core j) = 0"
        by blast
      then show "clk_prepare_enable_res ev
             (trace ?h1 @ map (\<lambda>c. EvClkPrepareEnable c 0) (map (clks core) [Suc i..<j])) (clks core j) = 0"
        by (simp add: upt[OF ij])
    qed
    show "clk_prepare_enable_res ev
           (trace ?h1 @ map (\<lambda>c. EvClkPrepareEnable c 0) (map (clks core) [Suc i..<k])) (clks core k) = e"
      using Suc.prems(4) ik by (simp add: upt)
  qed
  with step show ?case using ik
    by (auto simp: upt fun_eq_iff)
qed

lemma core_clks_enable_from_ok:
  assumes "i \<le> clks_num (res core)"
    and "\<forall>j. i \<le> j \<and> j < clks_num (res core) \<longrightarrow>
           clk_prepare_enable_res ev
             (trace h @ map (\<lambda>c. EvClkPrepareEnable c 0) (map (clks core) [i..<j])) (clks core j) = 0"
  shows "core_clks_enable_from ev core i h =
           (0, clks_num (res core), h\<lparr>clk_enable_count :=
                      (\<lambda>c. clk_enable_count h c + count_list (map (clks core) [i..<clks_num (res core)]) c),
                    trace := trace h @ map (\<lambda>c. EvClkPrepareEnable c 0) (map (clks core) [i..<clks_num (res core)])\<rparr>)"
  using assms
proof (induction "clks_num (res core) - i" arbitrary: i h)
  case 0
  then have "i = clks_num (res core)" by simp
  then show ?case by simp
next
  case (Suc d)
  then have ik: "i < clks_num (res core)" by simp
  let ?n = "clks_num (res core)"
  let ?h1 = "h\<lparr>clk_enable_count := (clk_enable_count h)(clks core i := Suc (clk_enable_count h (clks core i))),
               trace := trace h @ [EvClkPrepareEnable (clks core i) 0]\<rparr>"
  from Suc.prems(2) ik have r0: "clk_prepare_enable_res ev (trace h) (clks core i) = 0"
    by (metis append_Nil2 le_refl list.simps(8) upt_rec less_irrefl)
  have step: "core_clks_enable_from ev core i h = core_clks_enable_from ev core (Suc i) ?h1"
    using ik r0 by (simp add: clk_prepare_enable_def)
  have upt: "\<And>j. i < j \<Longrightarrow> [i..<j] = i # [Suc i..<j]"
    by (simp add: upt_conv_Cons)
  have "core_clks_enable_from ev core (Suc i) ?h1 =
          (0, ?n, ?h1\<lparr>clk_enable_count :=
                      (\<lambda>c. clk_enable_count ?h1 c + count_list (map (clks core) [Suc i..<?n]) c),
                    trace := trace ?h1 @ map (\<lambda>c. EvClkPrepareEnable c 0) (map (clks core) [Suc i..<?n])\<rparr>)"
  proof (rule Suc.hyps(1))
    show "d = ?n - Suc i" using Suc.hyps(2) by simp
    show "Suc i \<le> ?n" using ik by simp
    show "\<forall>j. Suc i \<le> j \<and> j < ?n \<longrightarrow>
           clk_prepare_enable_res ev
             (trace ?h1 @ map (\<lambda>c. EvClkPrepareEnable c 0) (map (clks core) [Suc i..<j])) (clks core j) = 0"
    proof (intro allI impI)
      fix j assume a: "Suc i \<le> j \<and> j < ?n"
      then have ij: "i < j" and b: "i \<le> j \<and> j < ?n" by auto
      from Suc.prems(2) b have "clk_prepare_enable_res ev
             (trace h @ map (\<lambda>c. EvClkPrepareEnable c 0) (map (clks core) [i..<j])) (clks core j) = 0"
        by blast
      then show "clk_prepare_enable_res ev
             (trace ?h1 @ map (\<lambda>c. EvClkPrepareEnable c 0) (map (clks core) [Suc i..<j])) (clks core j) = 0"
        by (simp add: upt[OF ij])
    qed
  qed
  with step show ?case using ik
    by (auto simp: upt fun_eq_iff)
qed


lemma example_clock_set: "clock_set example_core = [4096, 4104, 4112]"
  by (simp add: clock_set_def example_core_def example_res_def upt_rec)


text \<open>
  C1. Atomic group enable. If the enable of the clock at index \<open>k\<close> fails with code \<open>e\<close>
  after the clocks before it were enabled, \<^verbatim>\<open>core_clks_enable\<close> returns \<open>e\<close>; the calls
  it made are the \<open>k\<close> successful enables in insertion order, the failed enable, and the
  disables of exactly the clocks \<open>[0,k)\<close> in reverse order; every enable count is what
  it was before the call (so clocks that were disabled are disabled again). If every
  enable succeeds, it returns 0 having enabled all clocks in insertion order.
\<close>

theorem core_clks_enable_all_or_nothing:
  "(k < length (clock_set core) \<and>
    (\<forall>i<k. enable_result_at ev h (clock_set core) i = 0) \<and>
    enable_result_at ev h (clock_set core) k = e \<and> e \<noteq> 0 \<longrightarrow>
      core_clks_enable ev core h =
        (e, h\<lparr>trace := trace h
                  @ map (\<lambda>c. EvClkPrepareEnable c 0) (take k (clock_set core))
                  @ [EvClkPrepareEnable (clock_set core ! k) e]
                  @ map EvClkDisableUnprepare (rev (take k (clock_set core)))\<rparr>))
   \<and>
   ((\<forall>i<length (clock_set core). enable_result_at ev h (clock_set core) i = 0) \<longrightarrow>
      core_clks_enable ev core h =
        (0, h\<lparr>clk_enable_count := (\<lambda>c. clk_enable_count h c + count_list (clock_set core) c),
              trace := trace h @ map (\<lambda>c. EvClkPrepareEnable c 0) (clock_set core)\<rparr>))"
proof (intro conjI impI)
  assume a: "k < length (clock_set core) \<and>
    (\<forall>i<k. enable_result_at ev h (clock_set core) i = 0) \<and>
    enable_result_at ev h (clock_set core) k = e \<and> e \<noteq> 0"
  then have kn: "k < clks_num (res core)" by (simp add: clock_set_def)
  have "core_clks_enable_from ev core 0 h =
           (e, k, h\<lparr>clk_enable_count :=
                      (\<lambda>c. clk_enable_count h c + count_list (map (clks core) [0..<k]) c),
                    trace := trace h @ map (\<lambda>c. EvClkPrepareEnable c 0) (map (clks core) [0..<k])
                               @ [EvClkPrepareEnable (clks core k) e]\<rparr>)"
  proof (rule core_clks_enable_from_fail)
    show "0 \<le> k" by simp
    show "k < clks_num (res core)" by fact
    show "e \<noteq> 0" using a by simp
    show "\<forall>j. 0 \<le> j \<and> j < k \<longrightarrow>
           clk_prepare_enable_res ev
             (trace h @ map (\<lambda>c. EvClkPrepareEnable c 0) (map (clks core) [0..<j])) (clks core j) = 0"
    proof (intro allI impI)
      fix j assume "0 \<le> j \<and> j < k"
      then have jk: "j < k" by simp
      with a have "enable_result_at ev h (clock_set core) j = 0" by blast
      then show "clk_prepare_enable_res ev
             (trace h @ map (\<lambda>c. EvClkPrepareEnable c 0) (map (clks core) [0..<j])) (clks core j) = 0"
        using jk kn by (simp add: enable_result_at_def clock_set_take clock_set_nth)
    qed
    show "clk_prepare_enable_res ev
           (trace h @ map (\<lambda>c. EvClkPrepareEnable c 0) (map (clks core) [0..<k])) (clks core k) = e"
      using a kn by (simp add: enable_result_at_def clock_set_take clock_set_nth)
  qed
  then show "core_clks_enable ev core h =
        (e, h\<lparr>trace := trace h
                  @ map (\<lambda>c. EvClkPrepareEnable c 0) (take k (clock_set core))
                  @ [EvClkPrepareEnable (clock_set core ! k) e]
                  @ map EvClkDisableUnprepare (rev (take k (clock_set core)))\<rparr>)"
    using a kn
    by (simp add: core_clks_enable_def clks_disable_down_closed clock_set_take clock_set_nth)
next
  assume a: "\<forall>i<length (clock_set core). enable_result_at ev h (clock_set core) i = 0"
  have "core_clks_enable_from ev core 0 h =
           (0, clks_num (res core), h\<lparr>clk_enable_count :=
                      (\<lambda>c. clk_enable_count h c + count_list (map (clks core) [0..<clks_num (res core)]) c),
                    trace := trace h @ map (\<lambda>c. EvClkPrepareEnable c 0) (map (clks core) [0..<clks_num (res core)])\<rparr>)"
  proof (rule core_clks_enable_from_ok)
    show "0 \<le> clks_num (res core)" by simp
    show "\<forall>j. 0 \<le> j \<and> j < clks_num (res core) \<longrightarrow>
           clk_prepare_enable_res ev
             (trace h @ map (\<lambda>c. EvClkPrepareEnable c 0) (map (clks core) [0..<j])) (clks core j) = 0"
    proof (intro allI impI)
      fix j assume "0 \<le> j \<and> j < clks_num (res core)"
      then have jk: "j < clks_num (res core)" by simp
      with a have "enable_result_at ev h (clock_set core) j = 0" by (simp add: clock_set_def)
      then show "clk_prepare_enable_res ev
             (trace h @ map (\<lambda>c. EvClkPrepareEnable c 0) (map (clks core) [0..<j])) (clks core j) = 0"
        using jk by (simp add: enable_result_at_def clock_set_take clock_set_nth)
    qed
  qed
  then show "core_clks_enable ev core h =
        (0, h\<lparr>clk_enable_count := (\<lambda>c. clk_enable_count h c + count_list (clock_set core) c),
              trace := trace h @ map (\<lambda>c. EvClkPrepareEnable c 0) (clock_set core)\<rparr>)"
    by (simp add: core_clks_enable_def clock_set_def)
qed

theorem core_clks_enable_all_or_nothing_witness:
  "core_clks_enable (example_env\<lparr>clk_prepare_enable_res := (\<lambda>tr c. if c = 4112 then - 5 else 0)\<rparr>)
      example_core example_hw =
     (- 5, example_hw\<lparr>trace := [EvClkPrepareEnable 4096 0, EvClkPrepareEnable 4104 0,
                                EvClkPrepareEnable 4112 (- 5),
                                EvClkDisableUnprepare 4104, EvClkDisableUnprepare 4096]\<rparr>)
   \<and> core_clks_enable example_env example_core example_hw =
     (0, example_hw\<lparr>clk_enable_count := (\<lambda>c. if c = 4096 \<or> c = 4104 \<or> c = 4112 then 1 else 0),
          trace := [EvClkPrepareEnable 4096 0, EvClkPrepareEnable 4104 0, EvClkPrepareEnable 4112 0]\<rparr>)"
proof -
  let ?ev = "example_env\<lparr>clk_prepare_enable_res := (\<lambda>tr c. if c = 4112 then - 5 else 0)\<rparr>"
  have before: "\<forall>i<2. enable_result_at ?ev example_hw (clock_set example_core) i = 0"
  proof (intro allI impI)
    fix i :: nat assume "i < 2"
    then consider "i = 0" | "i = 1" by linarith
    then show "enable_result_at ?ev example_hw (clock_set example_core) i = 0"
      by cases (simp_all add: enable_result_at_def example_clock_set)
  qed
  have at: "enable_result_at ?ev example_hw (clock_set example_core) 2 = - 5"
    by (simp add: enable_result_at_def example_clock_set)
  have all_ok: "\<forall>i<length (clock_set example_core).
                  enable_result_at example_env example_hw (clock_set example_core) i = 0"
    by (simp add: enable_result_at_def example_env_def)
  show ?thesis
    using core_clks_enable_all_or_nothing [of 2 example_core ?ev example_hw "- 5"]
          core_clks_enable_all_or_nothing [of 0 example_core example_env example_hw 0]
          before at all_ok
    by (simp add: example_clock_set example_hw_def fun_eq_iff)
qed

section \<open>V1: a full on/off cycle\<close>

lemma core_clks_enable_from_success:
  "core_clks_enable_from ev core i h = (0, j, h1) \<Longrightarrow> i \<le> clks_num (res core) \<Longrightarrow>
     clk_enable_count h1 c =
       clk_enable_count h c + count_list (map (clks core) [i..<clks_num (res core)]) c"
proof (induction ev core i h rule: core_clks_enable_from.induct)
  case (1 ev core i h)
  show ?case
  proof (cases "i < clks_num (res core)")
    case False
    with "1.prems" show ?thesis by simp
  next
    case True
    obtain r hh where en: "clk_prepare_enable ev (clks core i) h = (r, hh)"
      by (cases "clk_prepare_enable ev (clks core i) h")
    show ?thesis
    proof (cases "r = 0")
      case False
      with True en "1.prems" show ?thesis by simp
    next
      case r0: True
      from True en r0 "1.prems"(1)
      have rec: "core_clks_enable_from ev core (Suc i) hh = (0, j, h1)" by simp
      have "clk_enable_count h1 c =
              clk_enable_count hh c + count_list (map (clks core) [Suc i..<clks_num (res core)]) c"
        using "1.IH"[OF True refl en[symmetric]] r0 rec True by simp
      moreover have "clk_enable_count hh c = clk_enable_count h c + (if clks core i = c then 1 else 0)"
        using en r0 by (auto simp: clk_prepare_enable_def Let_def)
      ultimately show ?thesis using True by (simp add: upt_conv_Cons)
    qed
  qed
qed


text \<open>
  C7. For every starting clock state, a successful V1 \<open>power(on)\<close> followed at once by
  \<open>power(off)\<close> leaves the enable count of every clock, and so its enabled state,
  exactly as it was before the \<open>power(on)\<close> call.
\<close>

theorem core_power_v1_cycle_restores:
  "fst (core_power_v1 ev core POWER_ON h) = 0 \<Longrightarrow>
     clk_enable_count (snd (core_power_v1 ev core POWER_OFF (snd (core_power_v1 ev core POWER_ON h))))
       = clk_enable_count h
     \<and> fst (core_power_v1 ev core POWER_OFF (snd (core_power_v1 ev core POWER_ON h))) = 0"
proof -
  assume ok: "fst (core_power_v1 ev core POWER_ON h) = 0"
  obtain r i h1 where loop: "core_clks_enable_from ev core 0 h = (r, i, h1)"
    by (cases "core_clks_enable_from ev core 0 h")
  from ok loop have r0: "r = 0"
    by (auto simp: core_power_v1_def core_clks_enable_def POWER_ON_def split: if_splits)
  with loop have on: "snd (core_power_v1 ev core POWER_ON h) = h1"
    by (simp add: core_power_v1_def core_clks_enable_def POWER_ON_def)
  have cnt: "\<And>c. clk_enable_count h1 c = clk_enable_count h c + count_list (clock_set core) c"
    using core_clks_enable_from_success[of ev core 0 h i h1] loop r0
    by (simp add: clock_set_def)
  show ?thesis
    unfolding on
    by (simp add: core_power_v1_def POWER_ON_def POWER_OFF_def core_clks_disable_def
          clks_disable_down_closed cnt fun_eq_iff clock_set_def[symmetric])
qed


lemma example_core_clks_enable:
  "core_clks_enable example_env example_core h =
     (0, h\<lparr>clk_enable_count := (\<lambda>c. clk_enable_count h c + count_list [4096, 4104, 4112] c),
           trace := trace h @ [EvClkPrepareEnable 4096 0, EvClkPrepareEnable 4104 0,
                               EvClkPrepareEnable 4112 0]\<rparr>)"
proof -
  have cs: "map (clks example_core) [0..<clks_num (res example_core)] = [4096, 4104, 4112]"
    using example_clock_set by (simp add: clock_set_def)
  have "core_clks_enable_from example_env example_core 0 h =
          (0, clks_num (res example_core),
           h\<lparr>clk_enable_count := (\<lambda>c. clk_enable_count h c
                  + count_list (map (clks example_core) [0..<clks_num (res example_core)]) c),
             trace := trace h @ map (\<lambda>c. EvClkPrepareEnable c 0)
                  (map (clks example_core) [0..<clks_num (res example_core)])\<rparr>)"
    by (rule core_clks_enable_from_ok) (simp_all add: example_env_def)
  then show ?thesis
    unfolding cs core_clks_enable_def by simp
qed

theorem core_power_v1_cycle_restores_witness:
  "fst (core_power_v1 example_env example_core POWER_ON busy_hw) = 0
   \<and> clk_enable_count (snd (core_power_v1 example_env example_core POWER_ON busy_hw)) 4096 = 3
   \<and> clk_enable_count (snd (core_power_v1 example_env example_core POWER_OFF
         (snd (core_power_v1 example_env example_core POWER_ON busy_hw)))) = clk_enable_count busy_hw"
proof -
  have on: "core_power_v1 example_env example_core POWER_ON busy_hw =
              core_clks_enable example_env example_core busy_hw"
    by (simp add: core_power_v1_def)
  have ok: "fst (core_power_v1 example_env example_core POWER_ON busy_hw) = 0"
    by (simp add: on example_core_clks_enable)
  have "clk_enable_count (snd (core_power_v1 example_env example_core POWER_ON busy_hw)) 4096 = 3"
    unfolding on example_core_clks_enable by (simp add: busy_hw_def)
  with ok core_power_v1_cycle_restores [of example_env example_core busy_hw]
  show ?thesis by simp
qed


section \<open>Version strategy selector: unknown generations\<close>

text \<open>
  C4. For every generation identifier other than the three recognised ones,
  \<^verbatim>\<open>venus_get_pm_ops\<close> returns the V1 table itself (not null): the very table it returns
  for generation 1, hence the same operations on the same resources.
\<close>

theorem venus_get_pm_ops_default:
  "version \<noteq> HFI_VERSION_1XX \<Longrightarrow> version \<noteq> HFI_VERSION_3XX \<Longrightarrow> version \<noteq> HFI_VERSION_4XX \<Longrightarrow>
     venus_get_pm_ops version = Some venus_pm_ops_v1
     \<and> venus_get_pm_ops version = venus_get_pm_ops HFI_VERSION_1XX"
  by (simp add: venus_get_pm_ops_def)

theorem venus_get_pm_ops_default_witness:
  "venus_get_pm_ops 7 = Some venus_pm_ops_v1 \<and> venus_get_pm_ops 7 = venus_get_pm_ops HFI_VERSION_1XX"
  using venus_get_pm_ops_default [of 7]
  by (simp add: HFI_VERSION_1XX_def HFI_VERSION_3XX_def HFI_VERSION_4XX_def venus_get_pm_ops_def)


section \<open>V3: session power paths\<close>

text \<open>
  C9. On power-on, \<^verbatim>\<open>vdec_power_v3\<close> and \<^verbatim>\<open>venc_power_v3\<close> write 0 to the session's
  control register, enable the session clock, and write 1 to the control register again
  whatever the enable returned; they return the enable's return code. On any other
  request (power-off) they return 0.
\<close>

theorem session_power_v3:
  "(vdec_power_v3 ev core POWER_ON h = (ret, h') \<longrightarrow>
      ret = clk_prepare_enable_res ev
              (trace h @ [EvWritel 0 WRAPPER_VDEC_VCODEC_POWER_CONTROL]) (core0_clk core) \<and>
      trace h' = trace h @ [EvWritel 0 WRAPPER_VDEC_VCODEC_POWER_CONTROL,
                            EvClkPrepareEnable (core0_clk core) ret,
                            EvWritel 1 WRAPPER_VDEC_VCODEC_POWER_CONTROL])
   \<and> (venc_power_v3 ev core POWER_ON h = (ret, h') \<longrightarrow>
      ret = clk_prepare_enable_res ev
              (trace h @ [EvWritel 0 WRAPPER_VENC_VCODEC_POWER_CONTROL]) (core1_clk core) \<and>
      trace h' = trace h @ [EvWritel 0 WRAPPER_VENC_VCODEC_POWER_CONTROL,
                            EvClkPrepareEnable (core1_clk core) ret,
                            EvWritel 1 WRAPPER_VENC_VCODEC_POWER_CONTROL])
   \<and> (on \<noteq> POWER_ON \<longrightarrow>
        fst (vdec_power_v3 ev core on h) = 0 \<and> fst (venc_power_v3 ev core on h) = 0)"
  by (auto simp: vdec_power_v3_def venc_power_v3_def vcodec_power_control_v3_def writel_def
        log_event_def clk_prepare_enable_def Let_def
        VIDC_SESSION_TYPE_DEC_def VIDC_SESSION_TYPE_ENC_def)

theorem session_power_v3_witness:
  "fst (vdec_power_v3 (example_env\<lparr>clk_prepare_enable_res := (\<lambda>tr c. - 5)\<rparr>) example_core POWER_ON example_hw) = - 5
   \<and> trace (snd (vdec_power_v3 (example_env\<lparr>clk_prepare_enable_res := (\<lambda>tr c. - 5)\<rparr>) example_core POWER_ON example_hw))
       = [EvWritel 0 WRAPPER_VDEC_VCODEC_POWER_CONTROL, EvClkPrepareEnable 8192 (- 5),
          EvWritel 1 WRAPPER_VDEC_VCODEC_POWER_CONTROL]
   \<and> fst (venc_power_v3 (example_env\<lparr>clk_prepare_enable_res := (\<lambda>tr c. - 5)\<rparr>) example_core POWER_ON example_hw) = - 5
   \<and> trace (snd (venc_power_v3 (example_env\<lparr>clk_prepare_enable_res := (\<lambda>tr c. - 5)\<rparr>) example_core POWER_ON example_hw))
       = [EvWritel 0 WRAPPER_VENC_VCODEC_POWER_CONTROL, EvClkPrepareEnable 8208 (- 5),
          EvWritel 1 WRAPPER_VENC_VCODEC_POWER_CONTROL]
   \<and> fst (vdec_power_v3 example_env example_core POWER_OFF example_hw) = 0
   \<and> fst (venc_power_v3 example_env example_core POWER_OFF example_hw) = 0"
proof -
  let ?ev = "example_env\<lparr>clk_prepare_enable_res := (\<lambda>tr c. - 5)\<rparr>"
  let ?d = "vdec_power_v3 ?ev example_core POWER_ON example_hw"
  let ?e = "venc_power_v3 ?ev example_core POWER_ON example_hw"
  have r1: "fst ?d = - 5" and r2: "fst ?e = - 5"
    by (simp_all add: vdec_power_v3_def venc_power_v3_def clk_prepare_enable_def Let_def)
  have off: "POWER_OFF \<noteq> POWER_ON" by (simp add: POWER_ON_def POWER_OFF_def)
  show ?thesis
    using session_power_v3 [of ?ev example_core example_hw "fst ?d" "snd ?d" POWER_OFF]
          session_power_v3 [of ?ev example_core example_hw "fst ?e" "snd ?e" POWER_OFF]
          session_power_v3 [of example_env example_core example_hw 0 example_hw POWER_OFF]
          r1 r2 off
    by (simp add: example_core_def example_hw_def)
qed

section \<open>Register handshake primitive: bounded polling\<close>

lemma poll_status_timeout:
  "(\<forall>j<n. \<not> cond (src (k + j))) \<Longrightarrow>
     poll_status src cond n k = (- ETIMEDOUT, map src [k..<k + n])"
proof (induction n arbitrary: k)
  case 0
  then show ?case by simp
next
  case (Suc n)
  from Suc.prems have now: "\<not> cond (src k)" by (metis add.right_neutral zero_less_Suc)
  have "\<forall>j<n. \<not> cond (src (Suc k + j))"
    using Suc.prems by (metis Suc_less_eq add_Suc_right add_Suc)
  then have "poll_status src cond n (Suc k) = (- ETIMEDOUT, map src [Suc k..<Suc k + n])"
    by (rule Suc.IH)
  moreover have "[k..<k + Suc n] = k # [Suc k..<Suc k + n]"
    by (simp add: upt_conv_Cons del: upt_Suc)
  ultimately show ?case using now by (simp del: upt_Suc)
qed

lemma poll_status_hit:
  "j < n \<Longrightarrow> cond (src (k + j)) \<Longrightarrow> (\<forall>i<j. \<not> cond (src (k + i))) \<Longrightarrow>
     poll_status src cond n k = (0, map src [k..<k + Suc j])"
proof (induction n arbitrary: k j)
  case 0
  then show ?case by simp
next
  case (Suc n)
  show ?case
  proof (cases j)
    case 0
    with Suc.prems show ?thesis by (simp del: upt_Suc add: upt_conv_Cons)
  next
    case (Suc j')
    with Suc.prems have now: "\<not> cond (src k)" by (metis add.right_neutral zero_less_Suc)
    have "poll_status src cond n (Suc k) = (0, map src [Suc k..<Suc k + Suc j'])"
    proof (rule Suc.IH)
      show "j' < n" using Suc.prems(1) Suc by simp
      show "cond (src (Suc k + j'))" using Suc.prems(2) Suc by simp
      show "\<forall>i<j'. \<not> cond (src (Suc k + i))"
        using Suc.prems(3) Suc by (metis Suc_less_eq add_Suc_right add_Suc)
    qed
    moreover have "[k..<k + Suc j] = k # [Suc k..<Suc k + Suc j']"
      using Suc by (simp add: upt_conv_Cons del: upt_Suc)
    ultimately show ?thesis using now by (simp del: upt_Suc)
  qed
qed

lemma poll_status_ret:
  "(fst (poll_status src cond n k) = 0) = (\<exists>j<n. cond (src (k + j)))"
proof (cases "\<exists>j<n. cond (src (k + j))")
  case True
  define m where "m = (LEAST j. j < n \<and> cond (src (k + j)))"
  from True have "m < n \<and> cond (src (k + m))"
    unfolding m_def by (rule LeastI_ex)
  moreover have "\<forall>i<m. \<not> cond (src (k + i))"
  proof (intro allI impI)
    fix i assume "i < m"
    then have "\<not> (i < n \<and> cond (src (k + i)))"
      unfolding m_def by (rule not_less_Least)
    moreover from \<open>i < m\<close> \<open>m < n \<and> cond (src (k + m))\<close> have "i < n" by simp
    ultimately show "\<not> cond (src (k + i))" by simp
  qed
  ultimately have "poll_status src cond n k = (0, map src [k..<k + Suc m])"
    using poll_status_hit[of m n cond src k] by blast
  with True show ?thesis by simp
next
  case False
  then have "poll_status src cond n k = (- ETIMEDOUT, map src [k..<k + n])"
    by (simp add: poll_status_timeout)
  with False show ?thesis by (simp add: ETIMEDOUT_def)
qed

lemma vcodec_power_control_v4_closed:
  "vcodec_power_control_v4 ev core coreid enable h =
     (let p = poll_status (status_source ev h coreid enable)
                (\<lambda>val. (val AND BIT 1 \<noteq> 0) = enable) 100 0
      in (fst p, h\<lparr>trace := trace h @
              [EvWritel (if enable then 0 else 1) (power_control_reg coreid),
               EvReadlPoll (power_status_reg coreid) (snd p) (fst p)]\<rparr>))"
  by (cases enable)
     (simp_all add: vcodec_power_control_v4_def status_source_def power_control_reg_def
        power_status_reg_def readl_poll_timeout_def writel_def log_event_def Let_def split_def)


text \<open>
  C6. \<^verbatim>\<open>vcodec_power_control_v4\<close> first writes the control register (0 to assert, 1 to
  de-assert) and then polls the status register of the same core, with interval 1 and
  timeout 100. It returns 0 if and only if one of the first \<open>100 / 1\<close> polls sees the
  status bit at the requested value, and then it stops at the first such poll. If none
  does, in particular for a status source that never changes, it returns \<open>-ETIMEDOUT\<close>
  after exactly \<open>100 / 1\<close> polls.
\<close>

theorem vcodec_power_control_v4_handshake:
  "vcodec_power_control_v4 ev core coreid enable h = (ret, h') \<Longrightarrow>
     (\<exists>vals. trace h' = trace h @ [EvWritel (if enable then 0 else 1) (power_control_reg coreid),
                                   EvReadlPoll (power_status_reg coreid) vals ret]
        \<and> ((ret = 0) = (\<exists>k<100. status_reached ev h coreid enable k))
        \<and> ((\<forall>k<100. \<not> status_reached ev h coreid enable k) \<longrightarrow>
              ret = - ETIMEDOUT \<and> length vals = 100 div 1 \<and>
              vals = map (status_source ev h coreid enable) [0..<100])
        \<and> (\<forall>k<100. status_reached ev h coreid enable k \<and>
                     (\<forall>j<k. \<not> status_reached ev h coreid enable j) \<longrightarrow>
              vals = map (status_source ev h coreid enable) [0..<Suc k]))"
proof -
  assume run: "vcodec_power_control_v4 ev core coreid enable h = (ret, h')"
  let ?src = "status_source ev h coreid enable"
  let ?cond = "\<lambda>val::u32. (val AND BIT 1 \<noteq> 0) = enable"
  let ?p = "poll_status ?src ?cond 100 0"
  from run have ret: "ret = fst ?p"
    and tr: "trace h' = trace h @ [EvWritel (if enable then 0 else 1) (power_control_reg coreid),
                                   EvReadlPoll (power_status_reg coreid) (snd ?p) ret]"
    by (auto simp: vcodec_power_control_v4_closed Let_def)
  have iff: "(ret = 0) = (\<exists>k<100. status_reached ev h coreid enable k)"
    unfolding ret using poll_status_ret[of ?src ?cond 100 0]
    by (simp add: status_reached_def)
  have never: "(\<forall>k<100. \<not> status_reached ev h coreid enable k) \<longrightarrow>
              ret = - ETIMEDOUT \<and> length (snd ?p) = 100 div 1 \<and> snd ?p = map ?src [0..<100]"
  proof
    assume "\<forall>k<100. \<not> status_reached ev h coreid enable k"
    then have "\<forall>j<100. \<not> ?cond (?src (0 + j))" by (simp add: status_reached_def)
    then have "?p = (- ETIMEDOUT, map ?src [0..<0 + 100])" by (rule poll_status_timeout)
    then have "?p = (- ETIMEDOUT, map ?src [0..<100])" by simp
    then show "ret = - ETIMEDOUT \<and> length (snd ?p) = 100 div 1 \<and> snd ?p = map ?src [0..<100]"
      by (simp add: ret)
  qed
  have first: "\<forall>k<100. status_reached ev h coreid enable k \<and>
                     (\<forall>j<k. \<not> status_reached ev h coreid enable j) \<longrightarrow>
              snd ?p = map ?src [0..<Suc k]"
  proof (intro allI impI)
    fix k assume k: "k < (100::nat)"
      and "status_reached ev h coreid enable k \<and> (\<forall>j<k. \<not> status_reached ev h coreid enable j)"
    then have "?cond (?src (0 + k))" "\<forall>i<k. \<not> ?cond (?src (0 + i))"
      by (simp_all add: status_reached_def)
    with k have "?p = (0, map ?src [0..<0 + Suc k])" by (rule poll_status_hit)
    then show "snd ?p = map ?src [0..<Suc k]" by (simp del: upt_Suc)
  qed
  from tr iff never first show ?thesis by blast
qed


lemma example_hw_trace: "trace example_hw = []"
  by (simp add: example_hw_def)

theorem vcodec_power_control_v4_handshake_witness:
  "fst (vcodec_power_control_v4 stuck_env example_core VIDC_CORE_ID_1 True example_hw) = - 110
   \<and> trace (snd (vcodec_power_control_v4 stuck_env example_core VIDC_CORE_ID_1 True example_hw))
       = [EvWritel 0 WRAPPER_VCODEC0_MMCC_POWER_CONTROL,
          EvReadlPoll WRAPPER_VCODEC0_MMCC_POWER_STATUS (replicate 100 0) (- 110)]
   \<and> fst (vcodec_power_control_v4 example_env example_core VIDC_CORE_ID_1 True example_hw) = 0
   \<and> trace (snd (vcodec_power_control_v4 example_env example_core VIDC_CORE_ID_1 True example_hw))
       = [EvWritel 0 WRAPPER_VCODEC0_MMCC_POWER_CONTROL,
          EvReadlPoll WRAPPER_VCODEC0_MMCC_POWER_STATUS [2] 0]"
proof -
  let ?a = "vcodec_power_control_v4 stuck_env example_core VIDC_CORE_ID_1 True example_hw"
  let ?b = "vcodec_power_control_v4 example_env example_core VIDC_CORE_ID_1 True example_hw"
  have never: "\<forall>k<100. \<not> status_reached stuck_env example_hw VIDC_CORE_ID_1 True k"
    by (simp add: status_reached_def status_source_def stuck_env_def)
  have src: "status_source stuck_env example_hw VIDC_CORE_ID_1 True = (\<lambda>k. 0)"
    by (simp add: status_source_def stuck_env_def)
  have at0: "status_reached example_env example_hw VIDC_CORE_ID_1 True 0"
    by (simp add: status_reached_def status_source_def example_env_def BIT_def example_hw_trace)
  have src0: "status_source example_env example_hw VIDC_CORE_ID_1 True 0 = 2"
    by (simp add: status_source_def example_env_def)
  from vcodec_power_control_v4_handshake [of stuck_env example_core VIDC_CORE_ID_1 True example_hw
         "fst ?a" "snd ?a"] never
  have a: "fst ?a = - 110 \<and> trace (snd ?a) = [EvWritel 0 WRAPPER_VCODEC0_MMCC_POWER_CONTROL,
          EvReadlPoll WRAPPER_VCODEC0_MMCC_POWER_STATUS (replicate 100 0) (- 110)]"
    by (auto simp: src map_replicate_const ETIMEDOUT_def example_hw_trace power_control_reg_def
          power_status_reg_def simp del: upt_Suc)
  from vcodec_power_control_v4_handshake [of example_env example_core VIDC_CORE_ID_1 True example_hw
         "fst ?b" "snd ?b", OF prod.collapse[symmetric]]
  obtain vals where tr: "trace (snd ?b) = trace example_hw @
         [EvWritel (if True then 0 else 1) (power_control_reg VIDC_CORE_ID_1),
          EvReadlPoll (power_status_reg VIDC_CORE_ID_1) vals (fst ?b)]"
    and iff: "(fst ?b = 0) = (\<exists>k<100. status_reached example_env example_hw VIDC_CORE_ID_1 True k)"
    and first: "\<forall>k<100. status_reached example_env example_hw VIDC_CORE_ID_1 True k \<and>
                     (\<forall>j<k. \<not> status_reached example_env example_hw VIDC_CORE_ID_1 True j) \<longrightarrow>
              vals = map (status_source example_env example_hw VIDC_CORE_ID_1 True) [0..<Suc k]"
    by blast
  from iff at0 have b0: "fst ?b = 0" by auto
  from first at0 have "vals = map (status_source example_env example_hw VIDC_CORE_ID_1 True) [0..<Suc 0]"
    by (metis not_less_zero zero_less_numeral)
  then have "vals = [2]" by (simp add: src0)
  with tr b0 have b: "fst ?b = 0 \<and> trace (snd ?b) = [EvWritel 0 WRAPPER_VCODEC0_MMCC_POWER_CONTROL,
          EvReadlPoll WRAPPER_VCODEC0_MMCC_POWER_STATUS [2] 0]"
    by (simp add: example_hw_trace power_control_reg_def power_status_reg_def)
  from a b show ?thesis by simp
qed

section \<open>Per-core power sequencer: power-off\<close>

lemma core_ids_distinct [simp]: "VIDC_CORE_ID_2 \<noteq> VIDC_CORE_ID_1"
  by (simp add: VIDC_CORE_ID_1_def VIDC_CORE_ID_2_def)

lemma core_mask_both [simp]:
  "(VIDC_CORE_ID_1 OR VIDC_CORE_ID_2) AND VIDC_CORE_ID_1 \<noteq> 0"
  "(VIDC_CORE_ID_1 OR VIDC_CORE_ID_2) AND VIDC_CORE_ID_2 \<noteq> 0"
  by (simp_all add: VIDC_CORE_ID_1_def VIDC_CORE_ID_2_def)

lemma core_ids_nonzero [simp]: "VIDC_CORE_ID_1 \<noteq> 0" "VIDC_CORE_ID_2 \<noteq> 0"
  by (simp_all add: VIDC_CORE_ID_1_def VIDC_CORE_ID_2_def)

lemma clk_disable_unprepare_trace [simp]:
  "trace (clk_disable_unprepare c h) = trace h @ [EvClkDisableUnprepare c]"
  by (simp add: clk_disable_unprepare_def)

lemma dev_err_trace [simp]: "trace (dev_err fmt args h) = trace h @ [EvDevErr fmt args]"
  by (simp add: dev_err_def log_event_def)

lemma vcodec_power_control_v4_trace:
  "vcodec_power_control_v4 ev core coreid enable h = (ret, h') \<Longrightarrow>
     \<exists>vs. trace h' = trace h @ [EvWritel (if enable then 0 else 1) (power_control_reg coreid),
                                 EvReadlPoll (power_status_reg coreid) vs ret]"
  by (auto simp: vcodec_power_control_v4_closed Let_def)

lemma pm_runtime_put_sync_trace:
  "pm_runtime_put_sync ev pd h = (ret, h') \<Longrightarrow> trace h' = trace h @ [EvPmRuntimePutSync pd ret]"
  by (auto simp: pm_runtime_put_sync_def log_event_def Let_def)

lemma pm_runtime_get_sync_trace:
  "pm_runtime_get_sync ev pd h = (ret, h') \<Longrightarrow> trace h' = trace h @ [EvPmRuntimeGetSync pd ret]"
  by (auto simp: pm_runtime_get_sync_def log_event_def Let_def)

lemma clk_prepare_enable_trace:
  "clk_prepare_enable ev c h = (ret, h') \<Longrightarrow> trace h' = trace h @ [EvClkPrepareEnable c ret]"
  by (auto simp: clk_prepare_enable_def Let_def)

lemma poweroff_core1_cases:
  "poweroff_core1 ev core h = (returned, ret, h') \<Longrightarrow>
     (\<exists>vs. returned \<and> ret \<noteq> 0 \<and>
        trace h' = trace h @ [EvWritel 0 (power_control_reg VIDC_CORE_ID_1),
                             EvReadlPoll (power_status_reg VIDC_CORE_ID_1) vs ret])
     \<or> (\<exists>vs1 vs2 r2. returned = (ret < 0) \<and>
        trace h' = trace h @ core_off_events core VIDC_CORE_ID_1 vs1 vs2 r2 ret)"
proof -
  assume run: "poweroff_core1 ev core h = (returned, ret, h')"
  obtain r1 h1 where a: "vcodec_power_control_v4 ev core VIDC_CORE_ID_1 True h = (r1, h1)"
    by (cases "vcodec_power_control_v4 ev core VIDC_CORE_ID_1 True h")
  from vcodec_power_control_v4_trace[OF a] obtain vs1 where
    t1: "trace h1 = trace h @ [EvWritel 0 (power_control_reg VIDC_CORE_ID_1),
                              EvReadlPoll (power_status_reg VIDC_CORE_ID_1) vs1 r1]"
    by auto
  show ?thesis
  proof (cases "r1 = 0")
    case False
    with run a have "returned" "ret = r1" "h' = h1"
      by (simp_all add: poweroff_core1_def)
    with t1 False show ?thesis by blast
  next
    case True
    let ?h3 = "clk_disable_unprepare (core0_clk core) (clk_disable_unprepare (core0_bus_clk core) h1)"
    obtain r2 h4 where b: "vcodec_power_control_v4 ev core VIDC_CORE_ID_1 False ?h3 = (r2, h4)"
      by (cases "vcodec_power_control_v4 ev core VIDC_CORE_ID_1 False ?h3")
    from vcodec_power_control_v4_trace[OF b] obtain vs2 where
      t2: "trace h4 = trace ?h3 @ [EvWritel 1 (power_control_reg VIDC_CORE_ID_1),
                                  EvReadlPoll (power_status_reg VIDC_CORE_ID_1) vs2 r2]"
      by auto
    let ?h5 = "if r2 \<noteq> 0 then dev_err ''%s: power off vcodec0 failed %d'' [r2] h4 else h4"
    obtain r3 h6 where c: "pm_runtime_put_sync ev (pd_core0 core) ?h5 = (r3, h6)"
      by (cases "pm_runtime_put_sync ev (pd_core0 core) ?h5")
    from run a True b c have res: "returned = (ret < 0)" "ret = r3" "h' = h6"
      by (auto simp: poweroff_core1_def Let_def split: if_splits)
    have "trace h6 = trace h @ core_off_events core VIDC_CORE_ID_1 vs1 vs2 r2 r3"
      using pm_runtime_put_sync_trace[OF c] t1 t2 True
      by (simp add: core_off_events_def core_clk_of_def core_bus_clk_of_def core_pd_of_def
            power_off_msg_def)
    with res show ?thesis by blast
  qed
qed

lemma poweroff_core2_cases:
  "poweroff_core2 ev core h = (returned, ret, h') \<Longrightarrow>
     (\<exists>vs. returned \<and> ret \<noteq> 0 \<and>
        trace h' = trace h @ [EvWritel 0 (power_control_reg VIDC_CORE_ID_2),
                             EvReadlPoll (power_status_reg VIDC_CORE_ID_2) vs ret])
     \<or> (\<exists>vs1 vs2 r2. \<not> returned \<and>
        trace h' = trace h @ core_off_events core VIDC_CORE_ID_2 vs1 vs2 r2 ret)"
proof -
  assume run: "poweroff_core2 ev core h = (returned, ret, h')"
  obtain r1 h1 where a: "vcodec_power_control_v4 ev core VIDC_CORE_ID_2 True h = (r1, h1)"
    by (cases "vcodec_power_control_v4 ev core VIDC_CORE_ID_2 True h")
  from vcodec_power_control_v4_trace[OF a] obtain vs1 where
    t1: "trace h1 = trace h @ [EvWritel 0 (power_control_reg VIDC_CORE_ID_2),
                              EvReadlPoll (power_status_reg VIDC_CORE_ID_2) vs1 r1]"
    by auto
  show ?thesis
  proof (cases "r1 = 0")
    case False
    with run a have "returned" "ret = r1" "h' = h1"
      by (simp_all add: poweroff_core2_def)
    with t1 False show ?thesis by blast
  next
    case True
    let ?h3 = "clk_disable_unprepare (core1_clk core) (clk_disable_unprepare (core1_bus_clk core) h1)"
    obtain r2 h4 where b: "vcodec_power_control_v4 ev core VIDC_CORE_ID_2 False ?h3 = (r2, h4)"
      by (cases "vcodec_power_control_v4 ev core VIDC_CORE_ID_2 False ?h3")
    from vcodec_power_control_v4_trace[OF b] obtain vs2 where
      t2: "trace h4 = trace ?h3 @ [EvWritel 1 (power_control_reg VIDC_CORE_ID_2),
                                  EvReadlPoll (power_status_reg VIDC_CORE_ID_2) vs2 r2]"
      by auto
    let ?h5 = "if r2 \<noteq> 0 then dev_err ''%s: power off vcodec1 failed %d'' [r2] h4 else h4"
    obtain r3 h6 where c: "pm_runtime_put_sync ev (pd_core1 core) ?h5 = (r3, h6)"
      by (cases "pm_runtime_put_sync ev (pd_core1 core) ?h5")
    from run a True b c have res: "\<not> returned" "ret = r3" "h' = h6"
      by (auto simp: poweroff_core2_def Let_def split: if_splits)
    have "trace h6 = trace h @ core_off_events core VIDC_CORE_ID_2 vs1 vs2 r2 r3"
      using pm_runtime_put_sync_trace[OF c] t1 t2 True
      by (simp add: core_off_events_def core_clk_of_def core_bus_clk_of_def core_pd_of_def
            power_off_msg_def)
    with res show ?thesis by blast
  qed
qed


text \<open>
  C3. \<^verbatim>\<open>poweroff_by_core_id\<close> for both cores ends in one of four ways, and in each the
  calls of a core come in the order assert handshake, disable core-bus clock, disable
  core clock, de-assert handshake, release power domain (\<open>core_off_events\<close>):
  \<^item> the assert handshake of CORE_1 fails: its code is returned at once;
  \<^item> the domain release of CORE_1 fails (negative code): that code is returned, after
    CORE_1's complete sequence and with no call for CORE_2;
  \<^item> CORE_1's sequence completes and the assert handshake of CORE_2 fails: its code is
    returned at once;
  \<^item> both sequences complete and the code of CORE_2's domain release is returned.
  A failed de-assert (\<open>r2 \<noteq> 0\<close>) only adds a log entry to the sequence, which goes on
  to the domain release.
\<close>

theorem poweroff_by_core_id_sequence:
  "poweroff_by_core_id ev core (VIDC_CORE_ID_1 OR VIDC_CORE_ID_2) h = (ret, h') \<Longrightarrow>
     (\<exists>vs. ret \<noteq> 0 \<and>
        trace h' = trace h @ [EvWritel 0 (power_control_reg VIDC_CORE_ID_1),
                             EvReadlPoll (power_status_reg VIDC_CORE_ID_1) vs ret])
     \<or> (\<exists>vs1 vs2 r2. ret < 0 \<and>
        trace h' = trace h @ core_off_events core VIDC_CORE_ID_1 vs1 vs2 r2 ret)
     \<or> (\<exists>vs1 vs2 r2 r3 vs. 0 \<le> r3 \<and> ret \<noteq> 0 \<and>
        trace h' = trace h @ core_off_events core VIDC_CORE_ID_1 vs1 vs2 r2 r3
                     @ [EvWritel 0 (power_control_reg VIDC_CORE_ID_2),
                        EvReadlPoll (power_status_reg VIDC_CORE_ID_2) vs ret])
     \<or> (\<exists>vs1 vs2 r2 r3 vs3 vs4 r5. 0 \<le> r3 \<and>
        trace h' = trace h @ core_off_events core VIDC_CORE_ID_1 vs1 vs2 r2 r3
                     @ core_off_events core VIDC_CORE_ID_2 vs3 vs4 r5 ret)"
proof -
  assume run: "poweroff_by_core_id ev core (VIDC_CORE_ID_1 OR VIDC_CORE_ID_2) h = (ret, h')"
  obtain b1 r1 h1 where c1: "poweroff_core1 ev core h = (b1, r1, h1)"
    by (cases "poweroff_core1 ev core h")
  obtain b2 r2 h2 where c2: "poweroff_core2 ev core h1 = (b2, r2, h2)"
    by (cases "poweroff_core2 ev core h1")
  show ?thesis
  proof (cases b1)
    case True
    with run c1 have "ret = r1" "h' = h1" by (simp_all add: poweroff_by_core_id_def)
    with poweroff_core1_cases[OF c1] True show ?thesis by blast
  next
    case False
    with run c1 c2 have eq: "ret = r2" "h' = h2" by (simp_all add: poweroff_by_core_id_def)
    from poweroff_core1_cases[OF c1] False
    obtain vs1 vs2 q2 where t1: "0 \<le> r1"
        "trace h1 = trace h @ core_off_events core VIDC_CORE_ID_1 vs1 vs2 q2 r1"
      by auto
    from poweroff_core2_cases[OF c2]
    consider vs where "r2 \<noteq> 0"
        "trace h2 = trace h1 @ [EvWritel 0 (power_control_reg VIDC_CORE_ID_2),
                               EvReadlPoll (power_status_reg VIDC_CORE_ID_2) vs r2]"
      | vs3 vs4 q5 where "trace h2 = trace h1 @ core_off_events core VIDC_CORE_ID_2 vs3 vs4 q5 r2"
      by blast
    then show ?thesis
    proof cases
      case 1
      with t1 eq have "0 \<le> r1 \<and> ret \<noteq> 0 \<and>
        trace h' = trace h @ core_off_events core VIDC_CORE_ID_1 vs1 vs2 q2 r1
                     @ [EvWritel 0 (power_control_reg VIDC_CORE_ID_2),
                        EvReadlPoll (power_status_reg VIDC_CORE_ID_2) vs ret]"
        by simp
      then show ?thesis by blast
    next
      case 2
      with t1 eq have "0 \<le> r1 \<and>
        trace h' = trace h @ core_off_events core VIDC_CORE_ID_1 vs1 vs2 q2 r1
                     @ core_off_events core VIDC_CORE_ID_2 vs3 vs4 q5 ret"
        by simp
      then show ?thesis by blast
    qed
  qed
qed


lemma example_core_fields:
  "core0_clk example_core = 8192" "core0_bus_clk example_core = 8200"
  "core1_clk example_core = 8208" "core1_bus_clk example_core = 8216"
  "pd_core example_core = 12288" "pd_core0 example_core = 12296"
  "pd_core1 example_core = 12304" "pd_dl_venus example_core = 16384"
  by (simp_all add: example_core_def)

lemma example_hw_fields:
  "trace example_hw = []" "clk_enable_count example_hw = (\<lambda>c. 0)"
  by (simp_all add: example_hw_def)

lemma vcodec_power_control_v4_hit:
  "status_reached ev h coreid enable 0 \<Longrightarrow>
     vcodec_power_control_v4 ev core coreid enable h =
       (0, h\<lparr>trace := trace h @
              [EvWritel (if enable then 0 else 1) (power_control_reg coreid),
               EvReadlPoll (power_status_reg coreid) [status_source ev h coreid enable 0] 0]\<rparr>)"
proof -
  assume "status_reached ev h coreid enable 0"
  then have "poll_status (status_source ev h coreid enable)
               (\<lambda>val. (val AND BIT 1 \<noteq> 0) = enable) 100 0
             = (0, map (status_source ev h coreid enable) [0..<0 + Suc 0])"
    by (intro poll_status_hit) (simp_all add: status_reached_def)
  then show ?thesis by (simp add: vcodec_power_control_v4_closed)
qed

lemma vcodec_power_control_v4_stuck:
  "(\<forall>k<100. \<not> status_reached ev h coreid enable k) \<Longrightarrow>
     vcodec_power_control_v4 ev core coreid enable h =
       (- ETIMEDOUT, h\<lparr>trace := trace h @
              [EvWritel (if enable then 0 else 1) (power_control_reg coreid),
               EvReadlPoll (power_status_reg coreid)
                 (map (status_source ev h coreid enable) [0..<100]) (- ETIMEDOUT)]\<rparr>)"
proof -
  assume "\<forall>k<100. \<not> status_reached ev h coreid enable k"
  then have "poll_status (status_source ev h coreid enable)
               (\<lambda>val. (val AND BIT 1 \<noteq> 0) = enable) 100 0
             = (- ETIMEDOUT, map (status_source ev h coreid enable) [0..<0 + 100])"
    by (intro poll_status_timeout) (simp add: status_reached_def)
  then show ?thesis by (simp add: vcodec_power_control_v4_closed del: upt_Suc)
qed

lemma held_env_poweroff:
  "poweroff_by_core_id held_env example_core (VIDC_CORE_ID_1 OR VIDC_CORE_ID_2) example_hw =
     (- 5, example_hw\<lparr>
        clk_enable_count := (\<lambda>c. 0),
        trace := core_off_events example_core VIDC_CORE_ID_1 [2] (replicate 100 2) (- 110) (- 5)\<rparr>)"
proof -
  have s1: "\<And>h. status_reached held_env h VIDC_CORE_ID_1 True 0"
    by (simp add: status_reached_def status_source_def held_env_def BIT_def)
  have s2: "\<And>h. \<forall>k<100. \<not> status_reached held_env h VIDC_CORE_ID_1 False k"
    by (simp add: status_reached_def status_source_def held_env_def BIT_def)
  have src: "\<And>h b. status_source held_env h VIDC_CORE_ID_1 b = (\<lambda>k. 2)"
    by (simp add: status_source_def held_env_def)
  have put: "\<And>tr pd. pm_runtime_put_sync_res held_env tr pd = - 5"
    by (simp add: held_env_def)
  show ?thesis
    by (simp add: poweroff_by_core_id_def poweroff_core1_def
          vcodec_power_control_v4_hit[OF s1] vcodec_power_control_v4_stuck[OF s2] src put
          map_replicate_const ETIMEDOUT_def clk_disable_unprepare_def dev_err_def log_event_def
          pm_runtime_put_sync_def core_off_events_def core_clk_of_def core_bus_clk_of_def
          core_pd_of_def power_off_msg_def example_hw_def example_core_fields fun_eq_iff
          del: upt_Suc)
qed

theorem poweroff_by_core_id_sequence_witness:
  "fst (poweroff_by_core_id held_env example_core (VIDC_CORE_ID_1 OR VIDC_CORE_ID_2) example_hw) = - 5
   \<and> trace (snd (poweroff_by_core_id held_env example_core (VIDC_CORE_ID_1 OR VIDC_CORE_ID_2) example_hw))
       = [EvWritel 0 WRAPPER_VCODEC0_MMCC_POWER_CONTROL,
          EvReadlPoll WRAPPER_VCODEC0_MMCC_POWER_STATUS [2] 0,
          EvClkDisableUnprepare 8200, EvClkDisableUnprepare 8192,
          EvWritel 1 WRAPPER_VCODEC0_MMCC_POWER_CONTROL,
          EvReadlPoll WRAPPER_VCODEC0_MMCC_POWER_STATUS (replicate 100 2) (- 110),
          EvDevErr ''%s: power off vcodec0 failed %d'' [- 110],
          EvPmRuntimePutSync 12296 (- 5)]"
  using poweroff_by_core_id_sequence [OF held_env_poweroff]
  unfolding held_env_poweroff
  by (simp add: core_off_events_def core_clk_of_def core_bus_clk_of_def
        core_pd_of_def power_off_msg_def power_control_reg_def power_status_reg_def
        example_core_fields)


section \<open>V4: power-off never skips the clock teardown\<close>

text \<open>
  C2. Whatever \<^verbatim>\<open>poweroff_by_core_id\<close> returns, \<^verbatim>\<open>core_power_v4\<close> with \<open>POWER_OFF\<close>
  goes on to disable every clock of the shared clock set, in reverse order (after a log
  entry when the per-core power-off failed), and returns the per-core return code.
\<close>

theorem core_power_v4_off_always_disables:
  "poweroff_by_core_id ev core (VIDC_CORE_ID_1 OR VIDC_CORE_ID_2) h = (r, h1) \<Longrightarrow>
     fst (core_power_v4 ev core POWER_OFF h) = r
     \<and> trace (snd (core_power_v4 ev core POWER_OFF h)) =
         trace h1 @ (if r \<noteq> 0 then [EvDevErr ''poweroff by core failed (%d)'' [r]] else [])
           @ map EvClkDisableUnprepare (rev (clock_set core))
     \<and> (\<forall>c. clk_enable_count (snd (core_power_v4 ev core POWER_OFF h)) c =
              clk_enable_count h1 c - count_list (clock_set core) c)"
  by (simp add: core_power_v4_def POWER_ON_def POWER_OFF_def core_clks_disable_def
        clks_disable_down_closed clock_set_def dev_err_def log_event_def)

lemma release_fail_env_poweroff:
  "poweroff_by_core_id release_fail_env example_core (VIDC_CORE_ID_1 OR VIDC_CORE_ID_2) example_hw =
     (- 5, example_hw\<lparr>
        clk_enable_count := (\<lambda>c. 0),
        trace := core_off_events example_core VIDC_CORE_ID_1 [2] [0] 0 (- 5)\<rparr>)"
proof -
  have s1: "\<And>h. status_reached release_fail_env h VIDC_CORE_ID_1 True 0"
    by (simp add: status_reached_def status_source_def release_fail_env_def example_env_def BIT_def)
  have s2: "\<And>h. status_reached release_fail_env h VIDC_CORE_ID_1 False 0"
    by (simp add: status_reached_def status_source_def release_fail_env_def example_env_def BIT_def)
  have src: "\<And>h b. status_source release_fail_env h VIDC_CORE_ID_1 b 0 = (if b then 2 else 0)"
    by (simp add: status_source_def release_fail_env_def example_env_def)
  have put: "\<And>tr. pm_runtime_put_sync_res release_fail_env tr 12296 = - 5"
    by (simp add: release_fail_env_def)
  show ?thesis
    by (simp add: poweroff_by_core_id_def poweroff_core1_def
          vcodec_power_control_v4_hit[OF s1] vcodec_power_control_v4_hit[OF s2] src put
          clk_disable_unprepare_def dev_err_def log_event_def
          pm_runtime_put_sync_def core_off_events_def core_clk_of_def core_bus_clk_of_def
          core_pd_of_def power_off_msg_def example_hw_def example_core_fields fun_eq_iff)
qed

theorem core_power_v4_off_always_disables_witness:
  "fst (core_power_v4 release_fail_env example_core POWER_OFF example_hw) = - 5
   \<and> trace (snd (core_power_v4 release_fail_env example_core POWER_OFF example_hw)) =
       [EvWritel 0 WRAPPER_VCODEC0_MMCC_POWER_CONTROL,
        EvReadlPoll WRAPPER_VCODEC0_MMCC_POWER_STATUS [2] 0,
        EvClkDisableUnprepare 8200, EvClkDisableUnprepare 8192,
        EvWritel 1 WRAPPER_VCODEC0_MMCC_POWER_CONTROL,
        EvReadlPoll WRAPPER_VCODEC0_MMCC_POWER_STATUS [0] 0,
        EvPmRuntimePutSync 12296 (- 5),
        EvDevErr ''poweroff by core failed (%d)'' [- 5],
        EvClkDisableUnprepare 4112, EvClkDisableUnprepare 4104, EvClkDisableUnprepare 4096]"
  using core_power_v4_off_always_disables [OF release_fail_env_poweroff]
  by (simp add: example_clock_set core_off_events_def core_clk_of_def core_bus_clk_of_def
        core_pd_of_def power_off_msg_def power_control_reg_def power_status_reg_def
        example_core_fields)

section \<open>Per-core power sequencer: power-on order\<close>

lemma poweron_core1_calls:
  "poweron_core1 ev core h = (returned, ret, h') \<Longrightarrow>
     \<exists>d. trace h' = trace h @ d
       \<and> prefix (map call_of d) (core_on_calls core VIDC_CORE_ID_1)
       \<and> (\<not> returned \<longrightarrow> map call_of d = core_on_calls core VIDC_CORE_ID_1)
       \<and> (returned \<longrightarrow> ret \<noteq> 0)"
  by (auto simp: poweron_core1_def Let_def core_on_calls_def core_clk_of_def core_bus_clk_of_def
        core_pd_of_def
        split: if_splits prod.splits
        dest!: vcodec_power_control_v4_trace pm_runtime_get_sync_trace clk_prepare_enable_trace)

lemma poweron_core2_calls:
  "poweron_core2 ev core h = (returned, ret, h') \<Longrightarrow>
     \<exists>d. trace h' = trace h @ d
       \<and> prefix (map call_of d) (core_on_calls core VIDC_CORE_ID_2)
       \<and> (\<not> returned \<longrightarrow> map call_of d = core_on_calls core VIDC_CORE_ID_2)
       \<and> (returned \<longrightarrow> ret \<noteq> 0)"
  by (auto simp: poweron_core2_def Let_def core_on_calls_def core_clk_of_def core_bus_clk_of_def
        core_pd_of_def
        split: if_splits prod.splits
        dest!: vcodec_power_control_v4_trace pm_runtime_get_sync_trace clk_prepare_enable_trace)



text \<open>
  C5. The calls of \<^verbatim>\<open>poweron_by_core_id\<close> for both cores split into a part \<open>d1\<close> for
  CORE_1 followed by a part \<open>d2\<close> for CORE_2. Each part is an initial segment of that
  core's sequence (acquire power domain, assert handshake and wait, enable core clock,
  enable core-bus clock, de-assert handshake and wait), so the steps of a core are never
  reordered or skipped; CORE_2's part is empty unless CORE_1's sequence is complete; and
  when the call returns 0 both sequences are complete.
\<close>

theorem poweron_by_core_id_order:
  "poweron_by_core_id ev core (VIDC_CORE_ID_1 OR VIDC_CORE_ID_2) h = (ret, h') \<Longrightarrow>
     \<exists>d1 d2. trace h' = trace h @ d1 @ d2
       \<and> prefix (map call_of d1) (core_on_calls core VIDC_CORE_ID_1)
       \<and> prefix (map call_of d2) (core_on_calls core VIDC_CORE_ID_2)
       \<and> (d2 \<noteq> [] \<longrightarrow> map call_of d1 = core_on_calls core VIDC_CORE_ID_1)
       \<and> (ret = 0 \<longrightarrow> map call_of d1 = core_on_calls core VIDC_CORE_ID_1
                      \<and> map call_of d2 = core_on_calls core VIDC_CORE_ID_2)"
proof -
  assume run: "poweron_by_core_id ev core (VIDC_CORE_ID_1 OR VIDC_CORE_ID_2) h = (ret, h')"
  obtain b1 r1 h1 where c1: "poweron_core1 ev core h = (b1, r1, h1)"
    by (cases "poweron_core1 ev core h")
  from poweron_core1_calls[OF c1] obtain d1 where
    t1: "trace h1 = trace h @ d1"
    and p1: "prefix (map call_of d1) (core_on_calls core VIDC_CORE_ID_1)"
    and f1: "\<not> b1 \<longrightarrow> map call_of d1 = core_on_calls core VIDC_CORE_ID_1"
    and e1: "b1 \<longrightarrow> r1 \<noteq> 0"
    by blast
  show ?thesis
  proof (cases b1)
    case True
    with run c1 have "ret = r1" "h' = h1" by (simp_all add: poweron_by_core_id_def)
    with t1 p1 e1 True have "trace h' = trace h @ d1 @ []
       \<and> prefix (map call_of d1) (core_on_calls core VIDC_CORE_ID_1)
       \<and> prefix (map call_of []) (core_on_calls core VIDC_CORE_ID_2)
       \<and> ([] \<noteq> ([]::event list) \<longrightarrow> map call_of d1 = core_on_calls core VIDC_CORE_ID_1)
       \<and> (ret = 0 \<longrightarrow> map call_of d1 = core_on_calls core VIDC_CORE_ID_1
                      \<and> map call_of [] = core_on_calls core VIDC_CORE_ID_2)"
      by simp
    then show ?thesis by blast
  next
    case False
    obtain b2 r2 h2 where c2: "poweron_core2 ev core h1 = (b2, r2, h2)"
      by (cases "poweron_core2 ev core h1")
    from poweron_core2_calls[OF c2] obtain d2 where
      t2: "trace h2 = trace h1 @ d2"
      and p2: "prefix (map call_of d2) (core_on_calls core VIDC_CORE_ID_2)"
      and f2: "\<not> b2 \<longrightarrow> map call_of d2 = core_on_calls core VIDC_CORE_ID_2"
      and e2: "b2 \<longrightarrow> r2 \<noteq> 0"
      by blast
    from run c1 c2 False have "ret = r2" "h' = h2" by (simp_all add: poweron_by_core_id_def)
    with t1 t2 p1 p2 f1 f2 e2 False have "trace h' = trace h @ d1 @ d2
       \<and> prefix (map call_of d1) (core_on_calls core VIDC_CORE_ID_1)
       \<and> prefix (map call_of d2) (core_on_calls core VIDC_CORE_ID_2)
       \<and> (d2 \<noteq> [] \<longrightarrow> map call_of d1 = core_on_calls core VIDC_CORE_ID_1)
       \<and> (ret = 0 \<longrightarrow> map call_of d1 = core_on_calls core VIDC_CORE_ID_1
                      \<and> map call_of d2 = core_on_calls core VIDC_CORE_ID_2)"
      by auto
    then show ?thesis by blast
  qed
qed

lemma example_env_poweron:
  "poweron_by_core_id example_env example_core (VIDC_CORE_ID_1 OR VIDC_CORE_ID_2) example_hw =
     (0, example_hw\<lparr>
        clk_enable_count := (\<lambda>c. if c = 8192 \<or> c = 8200 \<or> c = 8208 \<or> c = 8216 then 1 else 0),
        trace := [EvPmRuntimeGetSync 12296 0,
                  EvWritel 0 WRAPPER_VCODEC0_MMCC_POWER_CONTROL,
                  EvReadlPoll WRAPPER_VCODEC0_MMCC_POWER_STATUS [2] 0,
                  EvClkPrepareEnable 8192 0, EvClkPrepareEnable 8200 0,
                  EvWritel 1 WRAPPER_VCODEC0_MMCC_POWER_CONTROL,
                  EvReadlPoll WRAPPER_VCODEC0_MMCC_POWER_STATUS [0] 0,
                  EvPmRuntimeGetSync 12304 0,
                  EvWritel 0 WRAPPER_VCODEC1_MMCC_POWER_CONTROL,
                  EvReadlPoll WRAPPER_VCODEC1_MMCC_POWER_STATUS [2] 0,
                  EvClkPrepareEnable 8208 0, EvClkPrepareEnable 8216 0,
                  EvWritel 1 WRAPPER_VCODEC1_MMCC_POWER_CONTROL,
                  EvReadlPoll WRAPPER_VCODEC1_MMCC_POWER_STATUS [0] 0]\<rparr>)"
proof -
  have s: "\<And>h c b. status_reached example_env h c b 0"
    by (simp add: status_reached_def status_source_def example_env_def BIT_def)
  have src: "\<And>h c b. status_source example_env h c b 0 = (if b then 2 else 0)"
    by (simp add: status_source_def example_env_def)
  have en: "\<And>tr c. clk_prepare_enable_res example_env tr c = 0"
    and get: "\<And>tr pd. pm_runtime_get_sync_res example_env tr pd = 0"
    by (simp_all add: example_env_def)
  show ?thesis
    by (simp add: poweron_by_core_id_def poweron_core1_def poweron_core2_def
          vcodec_power_control_v4_hit[OF s] src en get
          clk_prepare_enable_def log_event_def pm_runtime_get_sync_def
          power_control_reg_def power_status_reg_def
          example_hw_def example_core_fields fun_eq_iff)
qed

theorem poweron_by_core_id_order_witness:
  "fst (poweron_by_core_id example_env example_core (VIDC_CORE_ID_1 OR VIDC_CORE_ID_2) example_hw) = 0
   \<and> map call_of (trace (snd (poweron_by_core_id example_env example_core
                                (VIDC_CORE_ID_1 OR VIDC_CORE_ID_2) example_hw)))
       = [CallPmRuntimeGetSync 12296,
          CallWritel 0 WRAPPER_VCODEC0_MMCC_POWER_CONTROL,
          CallReadlPoll WRAPPER_VCODEC0_MMCC_POWER_STATUS,
          CallClkPrepareEnable 8192, CallClkPrepareEnable 8200,
          CallWritel 1 WRAPPER_VCODEC0_MMCC_POWER_CONTROL,
          CallReadlPoll WRAPPER_VCODEC0_MMCC_POWER_STATUS,
          CallPmRuntimeGetSync 12304,
          CallWritel 0 WRAPPER_VCODEC1_MMCC_POWER_CONTROL,
          CallReadlPoll WRAPPER_VCODEC1_MMCC_POWER_STATUS,
          CallClkPrepareEnable 8208, CallClkPrepareEnable 8216,
          CallWritel 1 WRAPPER_VCODEC1_MMCC_POWER_CONTROL,
          CallReadlPoll WRAPPER_VCODEC1_MMCC_POWER_STATUS]"
proof -
  let ?x = "poweron_by_core_id example_env example_core (VIDC_CORE_ID_1 OR VIDC_CORE_ID_2) example_hw"
  have r: "fst ?x = 0" by (simp add: example_env_poweron)
  from poweron_by_core_id_order [of example_env example_core example_hw "fst ?x" "snd ?x",
         OF prod.collapse[symmetric]] r
  obtain d1 d2 where "trace (snd ?x) = trace example_hw @ d1 @ d2"
    "map call_of d1 = core_on_calls example_core VIDC_CORE_ID_1"
    "map call_of d2 = core_on_calls example_core VIDC_CORE_ID_2"
    by auto
  then have "map call_of (trace (snd ?x)) =
     core_on_calls example_core VIDC_CORE_ID_1 @ core_on_calls example_core VIDC_CORE_ID_2"
    by (simp add: example_hw_fields)
  with r show ?thesis
    by (simp add: core_on_calls_def core_clk_of_def core_bus_clk_of_def core_pd_of_def
          power_control_reg_def power_status_reg_def example_core_fields)
qed

section \<open>V4: resource acquisition\<close>

lemma IS_ERR_PTR_ERR:
  assumes "IS_ERR p"
  shows "- 4095 \<le> PTR_ERR p \<and> PTR_ERR p < 0"
proof -
  let ?w = "ucast p :: 32 word"
  define r where "r = uint p - 18446744069414584320"
  have u: "uint (- 4095 :: 64 word) = 18446744073709547521" by simp
  from assms have le: "18446744073709547521 \<le> uint p"
    unfolding IS_ERR_def MAX_ERRNO_def word_le_def u .
  have lt: "uint p < 18446744073709551616" using uint_bounded[of p] by simp
  from le lt have r: "4294963201 \<le> r" "r < 4294967296" by (simp_all add: r_def)
  have "uint p = r + 4294967295 * 4294967296" by (simp add: r_def)
  then have "uint p mod 4294967296 = r mod 4294967296"
    by (simp only: mod_mult_self1)
  also have "\<dots> = r" using r by simp
  finally have uw: "uint ?w = r"
    by (simp add: unsigned_ucast_eq take_bit_eq_mod)
  have "r + 2147483648 = (r - 2147483648) + 1 * 4294967296" by simp
  then have "(r + 2147483648) mod 4294967296 = (r - 2147483648) mod 4294967296"
    by (simp only: mod_mult_self1)
  also have "\<dots> = r - 2147483648" using r by simp
  finally have "sint ?w = r - 4294967296"
    by (simp add: sint_uint signed_take_bit_eq_take_bit_shift take_bit_eq_mod uw)
  with r show ?thesis by (simp add: PTR_ERR_def)
qed


lemma PTR_ERR_nonzero: "IS_ERR p \<Longrightarrow> PTR_ERR p \<noteq> 0"
  using IS_ERR_PTR_ERR[of p] by simp

lemma set_clk_res [simp]: "res (set_clk f p core) = res core"
  by (cases f) simp_all

lemma set_clk_keeps [simp]:
  "pd_core (set_clk f p core) = pd_core core" "pd_core0 (set_clk f p core) = pd_core0 core"
  "pd_core1 (set_clk f p core) = pd_core1 core" "pd_dl_venus (set_clk f p core) = pd_dl_venus core"
  by (cases f; simp)+

lemma set_pd_keeps [simp]:
  "res (set_pd f p core) = res core" "pd_dl_venus (set_pd f p core) = pd_dl_venus core"
  by (cases f; simp)+

lemma core_clks_get_from_resolve:
  "core_clks_get_from ev i core h = resolve_all ev (shared_clocks (res core) i) core h"
proof (induction ev i core h rule: core_clks_get_from.induct)
  case (1 ev i core h)
  show ?case
  proof (cases "i < clks_num (res core)")
    case False
    then show ?thesis by (simp add: shared_clocks_def)
  next
    case True
    obtain p h1 where g: "devm_clk_get ev (res_clks (res core) i) h = (p, h1)"
      by (cases "devm_clk_get ev (res_clks (res core) i) h")
    have sc: "shared_clocks (res core) i =
                Clock (res_clks (res core) i) (ClksAt i) # shared_clocks (res core) (Suc i)"
      using True by (simp add: shared_clocks_def upt_conv_Cons)
    show ?thesis
    proof (cases "IS_ERR p")
      case e: True
      with True g sc show ?thesis by (simp add: PTR_ERR_nonzero)
    next
      case e: False
      from "1.IH"[OF True refl g[symmetric] refl e]
      have "core_clks_get_from ev (Suc i) (core\<lparr>clks := (clks core)(i := p)\<rparr>) h1 =
              resolve_all ev (shared_clocks (res core) (Suc i)) (core\<lparr>clks := (clks core)(i := p)\<rparr>) h1"
        by simp
      with True g sc e show ?thesis by simp
    qed
  qed
qed

lemma resolve_all_append:
  "resolve_all ev (xs @ ys) core h =
     (let (ret, core1, h1) = resolve_all ev xs core h
      in if ret \<noteq> 0 then (ret, core1, h1) else resolve_all ev ys core1 h1)"
  by (induction xs arbitrary: core h) (simp_all add: Let_def split_def)


lemma resolve_code_nonzero [simp]:
  "((if IS_ERR p then PTR_ERR p else 0) \<noteq> 0) = IS_ERR p"
  "((if IS_ERR p then PTR_ERR p else 0) = 0) = (\<not> IS_ERR p)"
  by (simp_all add: PTR_ERR_nonzero)

lemma list_all_butlast: "list_all P xs \<Longrightarrow> list_all P (butlast xs)"
  by (induction xs) auto

lemma first_failure_nil: "first_failure [] [] 0"
  by (simp add: first_failure_def)

lemma first_failure_fail:
  "failure_of e = Some r \<Longrightarrow> r \<noteq> 0 \<Longrightarrow> first_failure [e] (call_of e # rest) r"
  by (simp add: first_failure_def)

lemma first_failure_cons:
  "failure_of e = None \<Longrightarrow> first_failure d calls r \<Longrightarrow>
     first_failure (e # d) (call_of e # calls) r"
  by (cases d) (auto simp: first_failure_def split: if_splits)

lemma resolve_all_run:
  "resolve_all ev rs core h = (ret, core', h') \<Longrightarrow>
     \<exists>d. trace h' = trace h @ d
       \<and> first_failure d (map resource_call rs) ret
       \<and> list_all (\<lambda>e. \<not> is_link_add e) d
       \<and> pd_dl_venus core' = pd_dl_venus core \<and> res core' = res core"
proof (induction rs arbitrary: core h)
  case Nil
  then show ?case by (simp add: first_failure_nil)
next
  case (Cons r rs)
  obtain r1 c1 h1 where s: "resolve ev r core h = (r1, c1, h1)"
    by (cases "resolve ev r core h")
  then obtain e where e: "trace h1 = trace h @ [e]" "call_of e = resource_call r"
      "failure_of e = (if r1 = 0 then None else Some r1)" "\<not> is_link_add e"
      "pd_dl_venus c1 = pd_dl_venus core" "res c1 = res core"
    by (cases r)
       (auto simp: devm_clk_get_def dev_pm_domain_attach_by_name_def log_event_def Let_def
          PTR_ERR_nonzero)
  show ?case
  proof (cases "r1 = 0")
    case False
    with Cons.prems s have "ret = r1" "core' = c1" "h' = h1" by simp_all
    moreover from e False have "first_failure [e] (map resource_call (r # rs)) r1"
      using first_failure_fail[of e r1 "map resource_call rs"] by simp
    ultimately have "trace h' = trace h @ [e]
       \<and> first_failure [e] (map resource_call (r # rs)) ret
       \<and> list_all (\<lambda>e. \<not> is_link_add e) [e]
       \<and> pd_dl_venus core' = pd_dl_venus core \<and> res core' = res core"
      using e by simp
    then show ?thesis by blast
  next
    case True
    with Cons.prems s have "resolve_all ev rs c1 h1 = (ret, core', h')" by simp
    from Cons.IH[OF this] obtain d where d: "trace h' = trace h1 @ d"
       "first_failure d (map resource_call rs) ret"
       "list_all (\<lambda>e. \<not> is_link_add e) d"
       "pd_dl_venus core' = pd_dl_venus c1" "res core' = res c1"
      by blast
    from e True d have "first_failure (e # d) (map resource_call (r # rs)) ret"
      using first_failure_cons[of e d "map resource_call rs" ret] by simp
    with e d have "trace h' = trace h @ (e # d)
       \<and> first_failure (e # d) (map resource_call (r # rs)) ret
       \<and> list_all (\<lambda>e. \<not> is_link_add e) (e # d)
       \<and> pd_dl_venus core' = pd_dl_venus core \<and> res core' = res core"
      by simp
    then show ?thesis by blast
  qed
qed


declare core_clks_get_from.simps [simp del]

lemma core_get_pm_v4_resolve:
  "core_get_pm_v4 ev core h =
     (let (ret, c, h1) = resolve_all ev (v4_resources (res core)) core h
      in if ret \<noteq> 0 then (ret, c, h1)
         else (let (l, h2) = device_link_add ev (pd_core c)
                               [DL_FLAG_PM_RUNTIME, DL_FLAG_STATELESS, DL_FLAG_RPM_ACTIVE] h1;
                   c2 = c\<lparr>pd_dl_venus := l\<rparr>
               in if l = NULL then (- ENODEV, c2, dev_err ''adding venus device link failed!'' [] h2)
                  else (0, c2, h2)))"
proof -
  obtain r0 c0 h0 where a0: "resolve_all ev (shared_clocks (res core) 0) core h = (r0, c0, h0)"
    by (cases "resolve_all ev (shared_clocks (res core) 0) core h")
  show ?thesis
  proof (cases "r0 = 0")
    case False
    with a0 show ?thesis by (simp add: core_get_pm_v4_def core_clks_get_def core_clks_get_from_resolve v4_resources_def resolve_all_append PTR_ERR_nonzero)
  next
    case z0: True
    obtain p1 h1 where a1: "devm_clk_get ev ''vcodec0_core'' h0 = (p1, h1)"
      by (cases "devm_clk_get ev ''vcodec0_core'' h0")
    show ?thesis
    proof (cases "IS_ERR p1")
      case True
      with a0 z0 a1 show ?thesis by (simp add: core_get_pm_v4_def core_clks_get_def core_clks_get_from_resolve v4_resources_def resolve_all_append PTR_ERR_nonzero)
    next
      case n1: False
      obtain p2 h2 where a2: "devm_clk_get ev ''vcodec0_bus'' h1 = (p2, h2)"
        by (cases "devm_clk_get ev ''vcodec0_bus'' h1")
      show ?thesis
      proof (cases "IS_ERR p2")
        case True
        with a0 z0 a1 n1 a2 show ?thesis by (simp add: core_get_pm_v4_def core_clks_get_def core_clks_get_from_resolve v4_resources_def resolve_all_append PTR_ERR_nonzero)
      next
        case n2: False
        obtain p3 h3 where a3: "devm_clk_get ev ''vcodec1_core'' h2 = (p3, h3)"
          by (cases "devm_clk_get ev ''vcodec1_core'' h2")
        show ?thesis
        proof (cases "IS_ERR p3")
          case True
          with a0 z0 a1 n1 a2 n2 a3 show ?thesis by (simp add: core_get_pm_v4_def core_clks_get_def core_clks_get_from_resolve v4_resources_def resolve_all_append PTR_ERR_nonzero)
        next
          case n3: False
          obtain p4 h4 where a4: "devm_clk_get ev ''vcodec1_bus'' h3 = (p4, h4)"
            by (cases "devm_clk_get ev ''vcodec1_bus'' h3")
          show ?thesis
          proof (cases "IS_ERR p4")
            case True
            with a0 z0 a1 n1 a2 n2 a3 n3 a4 show ?thesis by (simp add: core_get_pm_v4_def core_clks_get_def core_clks_get_from_resolve v4_resources_def resolve_all_append PTR_ERR_nonzero)
          next
            case n4: False
            obtain p5 h5 where a5: "dev_pm_domain_attach_by_name ev ''venus'' h4 = (p5, h5)"
              by (cases "dev_pm_domain_attach_by_name ev ''venus'' h4")
            show ?thesis
            proof (cases "IS_ERR p5")
              case True
              with a0 z0 a1 n1 a2 n2 a3 n3 a4 n4 a5 show ?thesis by (simp add: core_get_pm_v4_def core_clks_get_def core_clks_get_from_resolve v4_resources_def resolve_all_append PTR_ERR_nonzero)
            next
              case n5: False
              obtain p6 h6 where a6: "dev_pm_domain_attach_by_name ev ''vcodec0'' h5 = (p6, h6)"
                by (cases "dev_pm_domain_attach_by_name ev ''vcodec0'' h5")
              show ?thesis
              proof (cases "IS_ERR p6")
                case True
                with a0 z0 a1 n1 a2 n2 a3 n3 a4 n4 a5 n5 a6 show ?thesis by (simp add: core_get_pm_v4_def core_clks_get_def core_clks_get_from_resolve v4_resources_def resolve_all_append PTR_ERR_nonzero)
              next
                case n6: False
                obtain p7 h7 where a7: "dev_pm_domain_attach_by_name ev ''vcodec1'' h6 = (p7, h7)"
                  by (cases "dev_pm_domain_attach_by_name ev ''vcodec1'' h6")
                show ?thesis
                proof (cases "IS_ERR p7")
                  case True
                  with a0 z0 a1 n1 a2 n2 a3 n3 a4 n4 a5 n5 a6 n6 a7 show ?thesis by (simp add: core_get_pm_v4_def core_clks_get_def core_clks_get_from_resolve v4_resources_def resolve_all_append PTR_ERR_nonzero)
                next
                  case n7: False
                  from a0 z0 a1 n1 a2 n2 a3 n3 a4 n4 a5 n5 a6 n6 a7 n7 show ?thesis by (simp add: core_get_pm_v4_def core_clks_get_def core_clks_get_from_resolve v4_resources_def resolve_all_append PTR_ERR_nonzero)
                qed
              qed
            qed
          qed
        qed
      qed
    qed
  qed
qed

text \<open>
  C8. The calls \<open>d\<close> that \<^verbatim>\<open>core_get_pm_v4\<close> makes are an initial segment of the fixed
  sequence: the shared clocks, the four per-core clocks, the shared power domain, the two
  per-core power domains, the device link. No call but the last one fails. If the result is
  0, the whole sequence was made without a failure and the link is set. Otherwise the last
  call made is the one that failed and the result is its own error (the error encoded in
  the pointer, or \<open>-ENODEV\<close> for the link, which is also logged). If the failing call is
  not the link creation, no link creation was attempted and the link field is untouched.
\<close>

theorem core_get_pm_v4_first_failure:
  "core_get_pm_v4 ev core h = (ret, core', h') \<Longrightarrow>
     \<exists>d. trace h' = trace h @ d @
             (if ret \<noteq> 0 \<and> is_link_add (last d)
              then [EvDevErr ''adding venus device link failed!'' []] else [])
       \<and> prefix (map call_of d) (get_pm_v4_calls (res core) (pd_core core'))
       \<and> (\<forall>e\<in>set (butlast d). failure_of e = None)
       \<and> (ret = 0 \<longrightarrow> map call_of d = get_pm_v4_calls (res core) (pd_core core')
                      \<and> (\<forall>e\<in>set d. failure_of e = None) \<and> pd_dl_venus core' \<noteq> NULL)
       \<and> (ret \<noteq> 0 \<longrightarrow> d \<noteq> [] \<and> failure_of (last d) = Some ret)
       \<and> (ret \<noteq> 0 \<and> \<not> is_link_add (last d) \<longrightarrow>
             (\<forall>e\<in>set d. \<not> is_link_add e) \<and> pd_dl_venus core' = pd_dl_venus core)"
proof -
  assume run: "core_get_pm_v4 ev core h = (ret, core', h')"
  let ?flags = "[DL_FLAG_PM_RUNTIME, DL_FLAG_STATELESS, DL_FLAG_RPM_ACTIVE]"
  let ?rs = "v4_resources (res core)"
  let ?P = "\<lambda>d. trace h' = trace h @ d @
             (if ret \<noteq> 0 \<and> is_link_add (last d)
              then [EvDevErr ''adding venus device link failed!'' []] else [])
       \<and> prefix (map call_of d) (get_pm_v4_calls (res core) (pd_core core'))
       \<and> (\<forall>e\<in>set (butlast d). failure_of e = None)
       \<and> (ret = 0 \<longrightarrow> map call_of d = get_pm_v4_calls (res core) (pd_core core')
                      \<and> (\<forall>e\<in>set d. failure_of e = None) \<and> pd_dl_venus core' \<noteq> NULL)
       \<and> (ret \<noteq> 0 \<longrightarrow> d \<noteq> [] \<and> failure_of (last d) = Some ret)
       \<and> (ret \<noteq> 0 \<and> \<not> is_link_add (last d) \<longrightarrow>
             (\<forall>e\<in>set d. \<not> is_link_add e) \<and> pd_dl_venus core' = pd_dl_venus core)"
  obtain r1 c1 h1 where a: "resolve_all ev ?rs core h = (r1, c1, h1)"
    by (cases "resolve_all ev ?rs core h")
  from resolve_all_run[OF a] obtain d1 where t1: "trace h1 = trace h @ d1"
    and ff: "first_failure d1 (map resource_call ?rs) r1"
    and nl: "list_all (\<lambda>e. \<not> is_link_add e) d1"
    and keep: "pd_dl_venus c1 = pd_dl_venus core" "res c1 = res core"
    by blast
  show ?thesis
  proof (cases "r1 = 0")
    case False
    with run a have res: "ret = r1" "core' = c1" "h' = h1"
      by (simp_all add: core_get_pm_v4_resolve)
    from ff False have ne: "d1 \<noteq> []" and lastf: "failure_of (last d1) = Some r1"
      and pre: "prefix (map call_of d1) (map resource_call ?rs)"
      and bl: "list_all (\<lambda>e. failure_of e = None) (butlast d1)"
      by (simp_all add: first_failure_def)
    from nl ne have "\<not> is_link_add (last d1)"
      by (simp add: list_all_iff)
    moreover from pre have "prefix (map call_of d1) (get_pm_v4_calls (res core) (pd_core core'))"
      by (simp add: get_pm_v4_calls_def prefix_prefix)
    ultimately have "?P d1"
      using res False t1 ne lastf bl nl keep by (simp add: list_all_iff)
    then show ?thesis by blast
  next
    case True
    obtain l h2 where b: "device_link_add ev (pd_core c1) ?flags h1 = (l, h2)"
      by (cases "device_link_add ev (pd_core c1) ?flags h1")
    let ?e = "EvDeviceLinkAdd (pd_core c1) ?flags l"
    from b have t2: "trace h2 = trace h1 @ [?e]"
      by (auto simp: device_link_add_def log_event_def Let_def)
    from ff True have full: "map call_of d1 = map resource_call ?rs"
      and ok: "list_all (\<lambda>e. failure_of e = None) d1"
      by (simp_all add: first_failure_def)
    show ?thesis
    proof (cases "l = NULL")
      case n: True
      with run a True b have res: "ret = - ENODEV" "core' = c1\<lparr>pd_dl_venus := l\<rparr>"
          "h' = dev_err ''adding venus device link failed!'' [] h2"
        by (simp_all add: core_get_pm_v4_resolve)
      have "?P (d1 @ [?e])"
        using res n t1 t2 full ok keep
        by (simp add: get_pm_v4_calls_def list_all_iff ENODEV_def dev_err_def log_event_def)
      then show ?thesis by blast
    next
      case n: False
      with run a True b have res: "ret = 0" "core' = c1\<lparr>pd_dl_venus := l\<rparr>" "h' = h2"
        by (simp_all add: core_get_pm_v4_resolve)
      have "?P (d1 @ [?e])"
        using res n t1 t2 full ok keep
        by (simp add: get_pm_v4_calls_def list_all_iff)
      then show ?thesis by blast
    qed
  qed
qed


lemma missing_clock_get:
  "fst (core_get_pm_v4 missing_clock_env fresh_core example_hw) = - 2"
  "trace (snd (snd (core_get_pm_v4 missing_clock_env fresh_core example_hw))) =
     [EvDevmClkGet ''core'' 4096, EvDevmClkGet ''iface'' 4104, EvDevmClkGet ''bus'' 4112,
      EvDevmClkGet ''vcodec0_core'' 4120, EvDevmClkGet ''vcodec0_bus'' 4128,
      EvDevmClkGet ''vcodec1_core'' (ERR_PTR (- 2))]"
  "pd_dl_venus (fst (snd (core_get_pm_v4 missing_clock_env fresh_core example_hw))) = NULL"
  by (simp_all add: core_get_pm_v4_def core_clks_get_def core_clks_get_from.simps
        devm_clk_get_def log_event_def missing_clock_env_def example_env_def fresh_core_def
        example_res_def example_hw_def IS_ERR_def MAX_ERRNO_def ERR_PTR_def PTR_ERR_def NULL_def)

theorem core_get_pm_v4_first_failure_witness:
  "fst (core_get_pm_v4 missing_clock_env fresh_core example_hw) = - 2
   \<and> map call_of (trace (snd (snd (core_get_pm_v4 missing_clock_env fresh_core example_hw)))) =
       [CallDevmClkGet ''core'', CallDevmClkGet ''iface'', CallDevmClkGet ''bus'',
        CallDevmClkGet ''vcodec0_core'', CallDevmClkGet ''vcodec0_bus'',
        CallDevmClkGet ''vcodec1_core'']
   \<and> filter is_link_add
         (trace (snd (snd (core_get_pm_v4 missing_clock_env fresh_core example_hw)))) = []
   \<and> pd_dl_venus (fst (snd (core_get_pm_v4 missing_clock_env fresh_core example_hw))) = NULL"
proof -
  let ?x = "core_get_pm_v4 missing_clock_env fresh_core example_hw"
  have eq: "?x = (fst ?x, fst (snd ?x), snd (snd ?x))" by simp
  from core_get_pm_v4_first_failure [OF eq]
  show ?thesis by (simp add: missing_clock_get)
qed

section \<open>V4: release after a failed acquisition\<close>

lemma set_pd_fields:
  "pd_core (set_pd f p core) = (if f = PdCore then p else pd_core core)"
  "pd_core0 (set_pd f p core) = (if f = PdCore0 then p else pd_core0 core)"
  "pd_core1 (set_pd f p core) = (if f = PdCore1 then p else pd_core1 core)"
  by (cases f; simp)+

lemma resolve_all_domains:
  "resolve_all ev rs core h = (ret, core', h') \<Longrightarrow>
     \<exists>d. trace h' = trace h @ d
       \<and> (pd_core core' = pd_core core \<or> (\<exists>name. EvPmDomainAttach name (pd_core core') \<in> set d))
       \<and> (pd_core0 core' = pd_core0 core \<or> (\<exists>name. EvPmDomainAttach name (pd_core0 core') \<in> set d))
       \<and> (pd_core1 core' = pd_core1 core \<or> (\<exists>name. EvPmDomainAttach name (pd_core1 core') \<in> set d))"
proof (induction rs arbitrary: core h)
  case Nil
  then show ?case by simp
next
  case (Cons r rs)
  obtain r1 c1 h1 where s: "resolve ev r core h = (r1, c1, h1)"
    by (cases "resolve ev r core h")
  then obtain e where e: "trace h1 = trace h @ [e]"
      "pd_core c1 = pd_core core \<or> (\<exists>name. e = EvPmDomainAttach name (pd_core c1))"
      "pd_core0 c1 = pd_core0 core \<or> (\<exists>name. e = EvPmDomainAttach name (pd_core0 c1))"
      "pd_core1 c1 = pd_core1 core \<or> (\<exists>name. e = EvPmDomainAttach name (pd_core1 c1))"
    by (cases r)
       (auto simp: devm_clk_get_def dev_pm_domain_attach_by_name_def log_event_def Let_def
          set_pd_fields)
  show ?case
  proof (cases "r1 = 0")
    case False
    with Cons.prems s have "core' = c1" "h' = h1" by simp_all
    with e have "trace h' = trace h @ [e]
       \<and> (pd_core core' = pd_core core \<or> (\<exists>name. EvPmDomainAttach name (pd_core core') \<in> set [e]))
       \<and> (pd_core0 core' = pd_core0 core \<or> (\<exists>name. EvPmDomainAttach name (pd_core0 core') \<in> set [e]))
       \<and> (pd_core1 core' = pd_core1 core \<or> (\<exists>name. EvPmDomainAttach name (pd_core1 core') \<in> set [e]))"
      by auto
    then show ?thesis by blast
  next
    case True
    with Cons.prems s have "resolve_all ev rs c1 h1 = (ret, core', h')" by simp
    from Cons.IH[OF this] obtain d where d: "trace h' = trace h1 @ d"
       "pd_core core' = pd_core c1 \<or> (\<exists>name. EvPmDomainAttach name (pd_core core') \<in> set d)"
       "pd_core0 core' = pd_core0 c1 \<or> (\<exists>name. EvPmDomainAttach name (pd_core0 core') \<in> set d)"
       "pd_core1 core' = pd_core1 c1 \<or> (\<exists>name. EvPmDomainAttach name (pd_core1 core') \<in> set d)"
      by blast
    have "trace h' = trace h @ (e # d)" using e d by simp
    moreover have "pd_core core' = pd_core core
        \<or> (\<exists>name. EvPmDomainAttach name (pd_core core') \<in> set (e # d))"
      using e(2) d(2) by auto
    moreover have "pd_core0 core' = pd_core0 core
        \<or> (\<exists>name. EvPmDomainAttach name (pd_core0 core') \<in> set (e # d))"
      using e(3) d(3) by auto
    moreover have "pd_core1 core' = pd_core1 core
        \<or> (\<exists>name. EvPmDomainAttach name (pd_core1 core') \<in> set (e # d))"
      using e(4) d(4) by auto
    ultimately show ?thesis by blast
  qed
qed

lemma core_get_pm_v4_failed_handles:
  assumes run: "core_get_pm_v4 ev core h = (ret, core', h')" and fail: "ret \<noteq> 0"
  shows "\<exists>d. trace h' = trace h @ d
       \<and> (pd_dl_venus core' = pd_dl_venus core \<or> pd_dl_venus core' = NULL)
       \<and> (pd_core core' = pd_core core \<or> (\<exists>name. EvPmDomainAttach name (pd_core core') \<in> set d))
       \<and> (pd_core0 core' = pd_core0 core \<or> (\<exists>name. EvPmDomainAttach name (pd_core0 core') \<in> set d))
       \<and> (pd_core1 core' = pd_core1 core \<or> (\<exists>name. EvPmDomainAttach name (pd_core1 core') \<in> set d))"
proof -
  let ?flags = "[DL_FLAG_PM_RUNTIME, DL_FLAG_STATELESS, DL_FLAG_RPM_ACTIVE]"
  let ?rs = "v4_resources (res core)"
  obtain r1 c1 h1 where a: "resolve_all ev ?rs core h = (r1, c1, h1)"
    by (cases "resolve_all ev ?rs core h")
  from resolve_all_run[OF a] have keep: "pd_dl_venus c1 = pd_dl_venus core" by blast
  from resolve_all_domains[OF a] obtain d1 where d1: "trace h1 = trace h @ d1"
     "pd_core c1 = pd_core core \<or> (\<exists>name. EvPmDomainAttach name (pd_core c1) \<in> set d1)"
     "pd_core0 c1 = pd_core0 core \<or> (\<exists>name. EvPmDomainAttach name (pd_core0 c1) \<in> set d1)"
     "pd_core1 c1 = pd_core1 core \<or> (\<exists>name. EvPmDomainAttach name (pd_core1 c1) \<in> set d1)"
    by blast
  show ?thesis
  proof (cases "r1 = 0")
    case False
    with run a have "core' = c1" "h' = h1" by (simp_all add: core_get_pm_v4_resolve)
    with d1 keep show ?thesis by blast
  next
    case True
    obtain l h2 where b: "device_link_add ev (pd_core c1) ?flags h1 = (l, h2)"
      by (cases "device_link_add ev (pd_core c1) ?flags h1")
    from b have t2: "trace h2 = trace h1 @ [EvDeviceLinkAdd (pd_core c1) ?flags l]"
      by (auto simp: device_link_add_def log_event_def Let_def)
    from run a True b fail have n: "l = NULL"
      by (auto simp: core_get_pm_v4_resolve Let_def split: if_splits)
    with run a True b have res: "core' = c1\<lparr>pd_dl_venus := l\<rparr>"
        "h' = dev_err ''adding venus device link failed!'' [] h2"
      by (simp_all add: core_get_pm_v4_resolve)
    let ?d = "d1 @ [EvDeviceLinkAdd (pd_core c1) ?flags l,
                     EvDevErr ''adding venus device link failed!'' []]"
    have "trace h' = trace h @ ?d" using res d1 t2 by simp
    moreover have "pd_dl_venus core' = NULL" using res n by simp
    moreover have "pd_core core' = pd_core core
        \<or> (\<exists>name. EvPmDomainAttach name (pd_core core') \<in> set ?d)"
      using d1(2) res by auto
    moreover have "pd_core0 core' = pd_core0 core
        \<or> (\<exists>name. EvPmDomainAttach name (pd_core0 core') \<in> set ?d)"
      using d1(3) res by auto
    moreover have "pd_core1 core' = pd_core1 core
        \<or> (\<exists>name. EvPmDomainAttach name (pd_core1 core') \<in> set ?d)"
      using d1(4) res by auto
    ultimately show ?thesis by blast
  qed
qed

lemma core_put_pm_v4_trace:
  "trace (core_put_pm_v4 core h) =
     trace h
     @ (if pd_dl_venus core \<noteq> NULL then [EvDeviceLinkDel (pd_dl_venus core)] else [])
     @ map (\<lambda>p. EvPmDomainDetach p True)
         (filter (\<lambda>p. \<not> IS_ERR_OR_NULL p) [pd_core core, pd_core0 core, pd_core1 core])"
  by (simp add: core_put_pm_v4_def device_link_del_def dev_pm_domain_detach_def log_event_def)


text \<open>
  C10. \<^verbatim>\<open>core_put_pm_v4\<close> deletes the device link only if the link pointer is not null,
  and then detaches, in the order shared, CORE_1, CORE_2, those power domains whose handle is
  neither null nor an error pointer; it makes no other call. Hence after a
  \<^verbatim>\<open>core_get_pm_v4\<close> that failed on a zero-initialised core, every call it makes is the
  detach of a valid handle that this \<^verbatim>\<open>core_get_pm_v4\<close> had attached: no link is deleted
  and no unresolved handle is torn down.
\<close>

theorem core_put_pm_v4_only_resolved:
  "trace (core_put_pm_v4 core h) =
     trace h
     @ (if pd_dl_venus core \<noteq> NULL then [EvDeviceLinkDel (pd_dl_venus core)] else [])
     @ map (\<lambda>p. EvPmDomainDetach p True)
         (filter (\<lambda>p. \<not> IS_ERR_OR_NULL p) [pd_core core, pd_core0 core, pd_core1 core])
   \<and> (pd_core core0 = NULL \<and> pd_core0 core0 = NULL \<and> pd_core1 core0 = NULL
        \<and> pd_dl_venus core0 = NULL
        \<and> core_get_pm_v4 ev core0 h0 = (ret, core, h) \<and> ret \<noteq> 0 \<longrightarrow>
      (\<exists>d t. trace h = trace h0 @ d \<and> trace (core_put_pm_v4 core h) = trace h @ t
         \<and> (\<forall>e\<in>set t. \<exists>name p. e = EvPmDomainDetach p True \<and> \<not> IS_ERR_OR_NULL p
                                 \<and> EvPmDomainAttach name p \<in> set d)))"
proof (intro conjI impI)
  show "trace (core_put_pm_v4 core h) =
     trace h
     @ (if pd_dl_venus core \<noteq> NULL then [EvDeviceLinkDel (pd_dl_venus core)] else [])
     @ map (\<lambda>p. EvPmDomainDetach p True)
         (filter (\<lambda>p. \<not> IS_ERR_OR_NULL p) [pd_core core, pd_core0 core, pd_core1 core])"
    by (rule core_put_pm_v4_trace)
next
  assume a: "pd_core core0 = NULL \<and> pd_core0 core0 = NULL \<and> pd_core1 core0 = NULL
        \<and> pd_dl_venus core0 = NULL
        \<and> core_get_pm_v4 ev core0 h0 = (ret, core, h) \<and> ret \<noteq> 0"
  then have run: "core_get_pm_v4 ev core0 h0 = (ret, core, h)" and fail: "ret \<noteq> 0" by simp_all
  from core_get_pm_v4_failed_handles[OF run fail] a obtain d where d: "trace h = trace h0 @ d"
     "pd_dl_venus core = NULL"
     "pd_core core = NULL \<or> (\<exists>name. EvPmDomainAttach name (pd_core core) \<in> set d)"
     "pd_core0 core = NULL \<or> (\<exists>name. EvPmDomainAttach name (pd_core0 core) \<in> set d)"
     "pd_core1 core = NULL \<or> (\<exists>name. EvPmDomainAttach name (pd_core1 core) \<in> set d)"
    by auto
  let ?t = "map (\<lambda>p. EvPmDomainDetach p True)
         (filter (\<lambda>p. \<not> IS_ERR_OR_NULL p) [pd_core core, pd_core0 core, pd_core1 core])"
  have "trace (core_put_pm_v4 core h) = trace h @ ?t"
    using d(2) by (simp add: core_put_pm_v4_trace)
  moreover have "\<forall>e\<in>set ?t. \<exists>name p. e = EvPmDomainDetach p True \<and> \<not> IS_ERR_OR_NULL p
                                 \<and> EvPmDomainAttach name p \<in> set d"
    using d(3,4,5) by (auto simp: IS_ERR_OR_NULL_def)
  ultimately show "\<exists>d t. trace h = trace h0 @ d \<and> trace (core_put_pm_v4 core h) = trace h @ t
         \<and> (\<forall>e\<in>set t. \<exists>name p. e = EvPmDomainDetach p True \<and> \<not> IS_ERR_OR_NULL p
                                 \<and> EvPmDomainAttach name p \<in> set d)"
    using d(1) by blast
qed


lemma missing_domain_get:
  "fst (core_get_pm_v4 missing_domain_env fresh_core example_hw) = - 517"
  "pd_dl_venus (fst (snd (core_get_pm_v4 missing_domain_env fresh_core example_hw))) = NULL"
  "pd_core (fst (snd (core_get_pm_v4 missing_domain_env fresh_core example_hw))) = 12344"
  "pd_core0 (fst (snd (core_get_pm_v4 missing_domain_env fresh_core example_hw))) = 12352"
  "pd_core1 (fst (snd (core_get_pm_v4 missing_domain_env fresh_core example_hw))) = ERR_PTR (- 517)"
  by (simp_all add: core_get_pm_v4_def core_clks_get_def core_clks_get_from.simps
        devm_clk_get_def dev_pm_domain_attach_by_name_def log_event_def
        missing_domain_env_def example_env_def fresh_core_def
        example_res_def example_hw_def IS_ERR_def MAX_ERRNO_def ERR_PTR_def PTR_ERR_def NULL_def)

theorem core_put_pm_v4_only_resolved_witness:
  "fst (core_get_pm_v4 missing_domain_env fresh_core example_hw) = - 517
   \<and> pd_core1 (fst (snd (core_get_pm_v4 missing_domain_env fresh_core example_hw))) = ERR_PTR (- 517)
   \<and> trace (core_put_pm_v4 (fst (snd (core_get_pm_v4 missing_domain_env fresh_core example_hw)))
                             (snd (snd (core_get_pm_v4 missing_domain_env fresh_core example_hw))))
       = trace (snd (snd (core_get_pm_v4 missing_domain_env fresh_core example_hw)))
         @ [EvPmDomainDetach 12344 True, EvPmDomainDetach 12352 True]"
proof -
  let ?x = "core_get_pm_v4 missing_domain_env fresh_core example_hw"
  have eq: "?x = (fst ?x, fst (snd ?x), snd (snd ?x))" by simp
  have fresh: "pd_core fresh_core = NULL" "pd_core0 fresh_core = NULL"
    "pd_core1 fresh_core = NULL" "pd_dl_venus fresh_core = NULL"
    by (simp_all add: fresh_core_def)
  have ptrs: "\<not> IS_ERR_OR_NULL (12344 :: ptr)" "\<not> IS_ERR_OR_NULL (12352 :: ptr)"
    "IS_ERR_OR_NULL (ERR_PTR (- 517))"
    by (simp_all add: IS_ERR_OR_NULL_def IS_ERR_def MAX_ERRNO_def ERR_PTR_def NULL_def)
  from core_put_pm_v4_only_resolved [of "fst (snd ?x)" "snd (snd ?x)" fresh_core
         missing_domain_env example_hw "fst ?x"] eq fresh
  show ?thesis
    by (simp add: missing_domain_get ptrs)
qed

end
